theory Spec2Isabelle
  imports Main "HOL-Library.List_Lexorder" "HOL-Library.Sublist" "HOL-Library.AList"
begin

section \<open>Python values\<close>

text \<open>
  A Python \<open>str\<close> is a sequence of Unicode code points; it is modelled as the list of
  those code points. The order of \<open>HOL-Library.List_Lexorder\<close> on such lists is the
  lexicographic order by code point, a proper prefix being smaller, which is the order
  Python compares strings with. ASCII literals of the source are written as HOL string
  literals and converted by \<open>py\<close>.
\<close>

type_synonym pystr = "nat list"

definition py :: "string \<Rightarrow> pystr" where
  "py s = map of_char s"

text \<open>\<open>sep.join(xs)\<close>\<close>

fun join :: "pystr \<Rightarrow> pystr list \<Rightarrow> pystr" where
  "join sep [] = []"
| "join sep [x] = x"
| "join sep (x # y # zs) = x @ sep @ join sep (y # zs)"

text \<open>
  \<open>s.split(c)\<close> for a separator of one character \<open>c\<close>: every occurrence of \<open>c\<close>
  ends a piece, and the empty string splits into one empty piece.
\<close>

fun split_char :: "nat \<Rightarrow> pystr \<Rightarrow> pystr list" where
  "split_char c [] = [[]]"
| "split_char c (x # xs) =
     (if x = c then [] # split_char c xs
      else (case split_char c xs of
              [] \<Rightarrow> [[x]]
            | p # ps \<Rightarrow> (x # p) # ps))"

text \<open>
  \<open>word in text\<close> on two strings holds when \<open>word\<close> occurs in \<open>text\<close> as a contiguous
  run of code points: \<open>sublist word text\<close>, that is \<open>\<exists>ps ss. text = ps @ word @ ss\<close>,
  computed by \<open>sublist_code\<close>.
\<close>

datatype py_error = IndexError

section \<open>Content moderation\<close>

text \<open>
  The constant \<open>PROHIBITED_WORDS\<close> of src/app.py, line 176: nine Chinese words, each
  given here by the code points of its characters, in the order of the source list.
\<close>

definition PROHIBITED_WORDS :: "pystr list" where
  "PROHIBITED_WORDS =
     [[24191, 21578], [24494, 20449], [21152, 25105], [20080, 21334], [20195, 20889],
      [20195, 32771], [36186, 38065], [20860, 32844, 21047, 21333], [25307, 20195, 29702]]"

text \<open>
  \<^verbatim>\<open>
  def check_content_moderation(text):
      for word in PROHIBITED_WORDS:
          if word in text:
              return False, f"Content contains prohibited word: {word}"
      return True, ""
  \<close>
  The loop over the word list is \<open>moderation_loop\<close>. The function reads no global but
  the constant list and writes none, so it takes and returns no state.
\<close>

fun moderation_loop :: "pystr list \<Rightarrow> pystr \<Rightarrow> bool \<times> pystr" where
  "moderation_loop [] text = (True, [])"
| "moderation_loop (word # ws) text =
     (if sublist word text
      then (False, py ''Content contains prohibited word: '' @ word)
      else moderation_loop ws text)"

definition check_content_moderation :: "pystr \<Rightarrow> bool \<times> pystr" where
  "check_content_moderation text = moderation_loop PROHIBITED_WORDS text"

section \<open>Private messages\<close>

text \<open>
  \<^verbatim>\<open>
  def get_conversation_id(user1_id, user2_id):
      return "_".join(sorted([user1_id, user2_id]))
  \<close>
\<close>

definition get_conversation_id :: "pystr \<Rightarrow> pystr \<Rightarrow> pystr" where
  "get_conversation_id user1_id user2_id = join (py ''_'') (sort [user1_id, user2_id])"

text \<open>
  A message of \<open>private_messages\<close>, with the keys \<open>api_send_message\<close> gives it
  (\<open>id\<close> is \<open>msg_id\<close> here). \<open>private_messages\<close> maps a conversation id to the list of
  its messages and is iterated in insertion order, so it is an association list.
\<close>

record message =
  msg_id :: pystr
  sender_id :: pystr
  receiver_id :: pystr
  content :: pystr
  read :: bool
  created_at :: pystr

type_synonym private_messages = "(pystr \<times> message list) list"

text \<open>
  An entry of \<open>users_db\<close> (keyed by email), with the keys the message routes read:
  \<open>user_id\<close> (\<open>db_user_id\<close> here), \<open>profile.name\<close> (absent until the profile is filled
  in) and \<open>verified\<close>.
\<close>

record user =
  db_user_id :: pystr
  profile_name :: "pystr option"
  verified :: bool

type_synonym users_db = "(pystr \<times> user) list"

text \<open>
  \<^verbatim>\<open>sum(1 for m in messages if m['receiver_id'] == uid and not m.get('read', False))\<close>
\<close>

definition unread_in :: "pystr \<Rightarrow> message list \<Rightarrow> nat" where
  "unread_in uid messages = length (filter (\<lambda>m. receiver_id m = uid \<and> \<not> read m) messages)"

text \<open>
  \<^verbatim>\<open>
  def api_messages_unread_count():
      user = get_current_user()
      if not user:
          return jsonify({"success": True, "count": 0})
      uid = user['user_id']
      total_unread = 0
      for conv_id, messages in private_messages.items():
          if uid in conv_id.split("_"):
              total_unread += sum(1 for m in messages if ...)
      return jsonify({"success": True, "count": total_unread})
  \<close>
  The argument \<open>cur\<close> is the \<open>user_id\<close> of the user \<open>get_current_user()\<close> returns, \<open>None\<close>
  when it returns \<open>None\<close>; so it is in every route below. A request without a session
  is answered by the decorator \<open>@login_required\<close>, where a route has it, before the
  route runs, and changes nothing either. The result is the \<open>count\<close> of the response.
\<close>

fun unread_loop :: "pystr \<Rightarrow> private_messages \<Rightarrow> nat \<Rightarrow> nat" where
  "unread_loop uid [] total_unread = total_unread"
| "unread_loop uid ((conv_id, messages) # rest) total_unread =
     (if uid \<in> set (split_char 95 conv_id)
      then unread_loop uid rest (total_unread + unread_in uid messages)
      else unread_loop uid rest total_unread)"

definition api_messages_unread_count :: "private_messages \<Rightarrow> pystr option \<Rightarrow> nat" where
  "api_messages_unread_count pm cur =
     (case cur of None \<Rightarrow> 0 | Some uid \<Rightarrow> unread_loop uid pm 0)"

text \<open>One entry of the list \<open>api_get_conversations\<close> returns.\<close>

record conversation =
  conv_key :: pystr
  other_user_id :: pystr
  other_user_name :: pystr
  other_user_verified :: bool
  last_message :: pystr
  last_message_time :: pystr
  unread_count :: nat

text \<open>
  \<^verbatim>\<open>users_db.get(next((email for email, u in users_db.items()
                          if u.get('user_id') == other_id), None), {})\<close>
\<close>

definition find_user :: "users_db \<Rightarrow> pystr \<Rightarrow> user option" where
  "find_user db other_id =
     (case filter (\<lambda>(email, u). db_user_id u = other_id) db of
        [] \<Rightarrow> None
      | (email, u) # _ \<Rightarrow> map_of db email)"

text \<open>
  \<^verbatim>\<open>
  for conv_id, messages in private_messages.items():
      if uid in conv_id.split("_"):
          if messages:
              other_id = [u for u in conv_id.split("_") if u != uid][0]
              other_user = users_db.get(next(...), {})
              other_name = other_user.get('profile', {}).get('name', 'User')
              other_verified = other_user.get('verified', False)
              last_msg = messages[-1]
              unread_count = sum(1 for m in messages if ...)
              conversations.append({...
                  "last_message": last_msg['content'][:50]
                                  + ('...' if len(last_msg['content']) > 50 else ''), ...})
  conversations.sort(key=lambda c: c['last_message_time'], reverse=True)
  \<close>
  The subscript \<open>[0]\<close> raises \<open>IndexError\<close> when no piece of the key differs from \<open>uid\<close>.
  A stable sort with \<open>reverse=True\<close> keeps the order of entries with equal keys: it is
  the stable ascending sort of the reversed list, reversed.
\<close>

fun conversations_loop ::
  "users_db \<Rightarrow> pystr \<Rightarrow> private_messages \<Rightarrow> conversation list
     \<Rightarrow> py_error + conversation list" where
  "conversations_loop db uid [] conversations = Inr conversations"
| "conversations_loop db uid ((conv_id, messages) # rest) conversations =
     (if uid \<in> set (split_char 95 conv_id) \<and> messages \<noteq> []
      then (case filter (\<lambda>u. u \<noteq> uid) (split_char 95 conv_id) of
              [] \<Rightarrow> Inl IndexError
            | other_id # _ \<Rightarrow>
                let other_user = find_user db other_id;
                    other_name = (case other_user of
                                    None \<Rightarrow> py ''User''
                                  | Some u \<Rightarrow> (case profile_name u of
                                                None \<Rightarrow> py ''User''
                                              | Some n \<Rightarrow> n));
                    other_verified = (case other_user of
                                        None \<Rightarrow> False
                                      | Some u \<Rightarrow> verified u);
                    last_msg = last messages
                in conversations_loop db uid rest
                     (conversations @
                      [\<lparr>conv_key = conv_id,
                        other_user_id = other_id,
                        other_user_name = other_name,
                        other_user_verified = other_verified,
                        last_message = take 50 (content last_msg)
                           @ (if length (content last_msg) > 50 then py ''...'' else []),
                        last_message_time = created_at last_msg,
                        unread_count = unread_in uid messages\<rparr>]))
      else conversations_loop db uid rest conversations)"

text \<open>
  The result of \<open>api_get_conversations\<close> is the pair \<open>(success, conversations)\<close> of the
  JSON response, or the exception that ends the request.
\<close>

definition api_get_conversations ::
  "users_db \<Rightarrow> private_messages \<Rightarrow> pystr option \<Rightarrow> py_error + bool \<times> conversation list" where
  "api_get_conversations db pm cur =
     (case cur of
        None \<Rightarrow> Inr (False, [])
      | Some uid \<Rightarrow>
          (case conversations_loop db uid pm [] of
             Inl e \<Rightarrow> Inl e
           | Inr conversations \<Rightarrow>
               Inr (True, rev (sort_key last_message_time (rev conversations)))))"

section \<open>Time\<close>

text \<open>
  A naive \<open>datetime\<close> is a calendar day, counted as an integer, and the microseconds
  elapsed since the midnight that starts it; \<open>>=\<close> on datetimes compares the day first.
  \<open>now.replace(hour=0, minute=0, second=0, microsecond=0)\<close> is the midnight of the same
  day. Timestamps are stored as \<open>isoformat()\<close> strings and read back with
  \<open>fromisoformat\<close>, which returns the datetime that was written, so the model stores the
  datetime itself. The value of \<open>datetime.now()\<close> is an argument of the function that
  reads the clock, one argument for each read.
\<close>

datatype datetime = DateTime (dt_day: int) (dt_usec: nat)

definition dt_ge :: "datetime \<Rightarrow> datetime \<Rightarrow> bool" where
  "dt_ge a b \<longleftrightarrow> dt_day b < dt_day a \<or> (dt_day a = dt_day b \<and> dt_usec b \<le> dt_usec a)"

definition today_start :: "datetime \<Rightarrow> datetime" where
  "today_start now = DateTime (dt_day now) 0"

section \<open>Posts and likes\<close>

text \<open>
  A post of \<open>experience_posts\<close>, with the keys the like, favourite and delete routes
  read or write (\<open>id\<close> is \<open>post_id\<close> here); the other keys of a post (title, content,
  tags, votes, comments, ...) are left as they are by these routes.
\<close>

record post =
  post_id :: pystr
  author_id :: pystr
  likes :: int
  liked_by :: "pystr list"

text \<open>
  The five posts \<open>experience_posts\<close> holds when the application starts
  (src/app.py, from line 1175).
\<close>

definition seed_posts :: "post list" where
  "seed_posts =
     [\<lparr>post_id = py ''1'', author_id = py ''system'', likes = 42, liked_by = []\<rparr>,
      \<lparr>post_id = py ''2'', author_id = py ''system'', likes = 67, liked_by = []\<rparr>,
      \<lparr>post_id = py ''3'', author_id = py ''system'', likes = 35, liked_by = []\<rparr>,
      \<lparr>post_id = py ''4'', author_id = py ''system'', likes = 89, liked_by = []\<rparr>,
      \<lparr>post_id = py ''5'', author_id = py ''system'', likes = 28, liked_by = []\<rparr>]"

text \<open>
  The module's globals that the routes on posts write. \<open>user_likes\<close> maps a user id
  to a dictionary from post id to the timestamp of the like; the inner dictionary is
  iterated (its values are counted), so it is an association list, updated and deleted
  from as a dictionary is (\<open>AList.update\<close> keeps the place of a key that is present and
  appends a new one; the keys stay distinct). \<open>user_favorites\<close> is iterated by
  \<open>api_delete_post\<close>.
\<close>

record app_state =
  experience_posts :: "post list"
  user_likes :: "pystr \<rightharpoonup> (pystr \<times> datetime) list"
  user_favorites :: "(pystr \<times> pystr list) list"

text \<open>The state at the start of the process.\<close>

definition initial_state :: app_state where
  "initial_state =
     \<lparr>experience_posts = seed_posts, user_likes = Map.empty, user_favorites = []\<rparr>"

text \<open>
  The failure responses \<open>{"success": False, "message": ...}\<close> of the modelled routes, one
  constructor for each message.
\<close>

datatype rate_error =
    AlreadyLikedToday    \<comment> \<open>"Today's like, cannot be repeated"\<close>
  | DailyLimitReached    \<comment> \<open>"Daily like limit reached (50/day)"\<close>
  | AlreadyVotedToday    \<comment> \<open>"You already voted for this company today"\<close>

datatype api_error =
    LoginRequired            \<comment> \<open>"Please login ..."\<close>
  | RateLimited rate_error   \<comment> \<open>the message of the rate check\<close>
  | PostNotFound             \<comment> \<open>"Post not found"\<close>
  | NotOwner                 \<comment> \<open>"You can only delete your own posts"\<close>
  | CompanyNotFound          \<comment> \<open>"Company not found"\<close>
  | OfferNotFound            \<comment> \<open>"Offer not found"\<close>

text \<open>
  \<^verbatim>\<open>
  def can_like_post(user_id, post_id):
      if user_id not in user_likes:
          user_likes[user_id] = {}
      user_post_likes = user_likes[user_id]
      now = datetime.now()
      today_start = now.replace(hour=0, minute=0, second=0, microsecond=0)
      if post_id in user_post_likes:
          last_like = datetime.fromisoformat(user_post_likes[post_id])
          if last_like >= today_start:
              return False, "Today's like, cannot be repeated"
      today_likes = sum(1 for ts in user_post_likes.values()
                        if datetime.fromisoformat(ts) >= today_start)
      if today_likes >= 50:
          return False, "Daily like limit reached (50/day)"
      return True, ""
  \<close>
  The result is the dictionary \<open>user_likes\<close> after the call and the refusal, \<open>None\<close> for
  \<open>(True, "")\<close>.
\<close>

definition likes_of :: "(pystr \<rightharpoonup> (pystr \<times> datetime) list) \<Rightarrow> pystr \<Rightarrow> (pystr \<times> datetime) list" where
  "likes_of ul user_id = (case ul user_id of None \<Rightarrow> [] | Some m \<Rightarrow> m)"

definition today_likes :: "(pystr \<times> datetime) list \<Rightarrow> datetime \<Rightarrow> nat" where
  "today_likes user_post_likes now =
     length (filter (\<lambda>(p, ts). dt_ge ts (today_start now)) user_post_likes)"

definition can_like_post ::
  "(pystr \<rightharpoonup> (pystr \<times> datetime) list) \<Rightarrow> pystr \<Rightarrow> pystr \<Rightarrow> datetime
     \<Rightarrow> (pystr \<rightharpoonup> (pystr \<times> datetime) list) \<times> rate_error option" where
  "can_like_post ul user_id pid now =
     (let ul1 = (case ul user_id of None \<Rightarrow> ul(user_id \<mapsto> []) | Some m \<Rightarrow> ul);
          user_post_likes = likes_of ul1 user_id
      in if (case map_of user_post_likes pid of
               None \<Rightarrow> False
             | Some last_like \<Rightarrow> dt_ge last_like (today_start now))
         then (ul1, Some AlreadyLikedToday)
         else if today_likes user_post_likes now \<ge> 50
         then (ul1, Some DailyLimitReached)
         else (ul1, None))"

text \<open>
  \<^verbatim>\<open>
  def api_like_post(post_id):
      user = get_current_user()
      if not user:
          return jsonify({"success": False, "message": "Please login to like posts"})
      user_id = user['user_id']
      for post in experience_posts:
          if post["id"] == post_id:
              if "liked_by" not in post:
                  post["liked_by"] = []
              # Toggle: if already liked, unlike
              if user_id in post["liked_by"]:
                  post["liked_by"].remove(user_id)
                  post["likes"] = max(0, post["likes"] - 1)
                  # Remove from tracking
                  if user_id in user_likes and post_id in user_likes[user_id]:
                      del user_likes[user_id][post_id]
                  return jsonify({"success": True, "likes": post["likes"], "liked": False})
              # Check like limits for new like
              can_like, msg = can_like_post(user_id, post_id)
              if not can_like:
                  return jsonify({"success": False, "message": msg, "already_liked": True})
              post["likes"] += 1
              post["liked_by"].append(user_id)
              # Record like timestamp
              if user_id not in user_likes:
                  user_likes[user_id] = {}
              user_likes[user_id][post_id] = datetime.now().isoformat()
              return jsonify({"success": True, "likes": post["likes"], "liked": True})
      return jsonify({"success": False, "message": "Post not found"})
  \<close>
  \<open>like_loop\<close> is the \<open>for\<close> loop and \<open>like_body\<close> what it does with the first post
  whose id matches: they return the posts and \<open>user_likes\<close> as the request leaves them,
  and the response, \<open>Inr (likes, liked)\<close> for a success. The clock is
  read twice, by \<open>can_like_post\<close> (\<open>now_check\<close>) and for the timestamp that is recorded
  (\<open>now_record\<close>). Every post has the key \<open>liked_by\<close>. \<open>list.remove\<close> deletes the first
  occurrence (\<open>remove1\<close>).
\<close>

definition like_body ::
  "pystr \<Rightarrow> pystr \<Rightarrow> datetime \<Rightarrow> datetime \<Rightarrow> (pystr \<rightharpoonup> (pystr \<times> datetime) list)
     \<Rightarrow> post
     \<Rightarrow> post \<times> (pystr \<rightharpoonup> (pystr \<times> datetime) list) \<times> (api_error + int \<times> bool)" where
  "like_body user_id pid now_check now_record ul post =
     (if user_id \<in> set (liked_by post) then
        (let post' = post\<lparr>liked_by := remove1 user_id (liked_by post),
                           likes := max 0 (likes post - 1)\<rparr>;
             ul' = (case ul user_id of
                      None \<Rightarrow> ul
                    | Some m \<Rightarrow> ul(user_id \<mapsto> AList.delete pid m))
         in (post', ul', Inr (likes post', False)))
      else
        (case can_like_post ul user_id pid now_check of
           (ul1, Some msg) \<Rightarrow> (post, ul1, Inl (RateLimited msg))
         | (ul1, None) \<Rightarrow>
             (let post' = post\<lparr>likes := likes post + 1,
                                liked_by := liked_by post @ [user_id]\<rparr>;
                  ul' = ul1(user_id \<mapsto> AList.update pid now_record (likes_of ul1 user_id))
              in (post', ul', Inr (likes post', True)))))"

fun like_loop ::
  "pystr \<Rightarrow> pystr \<Rightarrow> datetime \<Rightarrow> datetime \<Rightarrow> (pystr \<rightharpoonup> (pystr \<times> datetime) list)
     \<Rightarrow> post list
     \<Rightarrow> post list \<times> (pystr \<rightharpoonup> (pystr \<times> datetime) list) \<times> (api_error + int \<times> bool)" where
  "like_loop user_id pid now_check now_record ul [] = ([], ul, Inl PostNotFound)"
| "like_loop user_id pid now_check now_record ul (post # rest) =
     (if post_id post = pid then
        (case like_body user_id pid now_check now_record ul post of
           (post', ul', r) \<Rightarrow> (post' # rest, ul', r))
      else
        (case like_loop user_id pid now_check now_record ul rest of
           (rest', ul', r) \<Rightarrow> (post # rest', ul', r)))"

definition api_like_post ::
  "app_state \<Rightarrow> pystr option \<Rightarrow> pystr \<Rightarrow> datetime \<Rightarrow> datetime
     \<Rightarrow> app_state \<times> (api_error + int \<times> bool)" where
  "api_like_post st cur pid now_check now_record =
     (case cur of
        None \<Rightarrow> (st, Inl LoginRequired)
      | Some user_id \<Rightarrow>
          (case like_loop user_id pid now_check now_record (user_likes st) (experience_posts st) of
             (posts', ul', r) \<Rightarrow> (st\<lparr>experience_posts := posts', user_likes := ul'\<rparr>, r)))"

text \<open>
  A sequence of calls of the like route, each with the logged-in user (or none), the
  post id and the two clock readings; the responses are collected in order.
\<close>

fun run_like_requests ::
  "app_state \<Rightarrow> (pystr option \<times> pystr \<times> datetime \<times> datetime) list
     \<Rightarrow> app_state \<times> (api_error + int \<times> bool) list" where
  "run_like_requests st [] = (st, [])"
| "run_like_requests st ((cur, pid, now_check, now_record) # reqs) =
     (case api_like_post st cur pid now_check now_record of
        (st1, r) \<Rightarrow>
          (case run_like_requests st1 reqs of
             (st2, rs) \<Rightarrow> (st2, r # rs)))"

text \<open>
  What a run of successful likes \<open>(post id, clock at the check, clock at the record)\<close>
  writes into the dictionary of one user: \<open>user_likes[user_id][post_id] = timestamp\<close>
  for each in turn.
\<close>

definition record_likes :: "(pystr \<times> datetime) list \<Rightarrow> (pystr \<times> datetime \<times> datetime) list \<Rightarrow> (pystr \<times> datetime) list" where
  "record_likes m ls = foldl (\<lambda>m (pid, t1, t2). AList.update pid t2 m) m ls"

text \<open>
  What a sequence of calls of the like route keeps of one post, for the proofs: its id,
  the surplus of \<open>likes\<close> over the number of entries of \<open>liked_by\<close> when \<open>likes\<close> is not
  below that number, and the absence of duplicates in \<open>liked_by\<close>.
\<close>

definition kept :: "post \<Rightarrow> post \<Rightarrow> bool" where
  "kept p p' \<longleftrightarrow>
     post_id p' = post_id p
   \<and> (int (length (liked_by p)) \<le> likes p \<longrightarrow>
        likes p' - int (length (liked_by p')) = likes p - int (length (liked_by p)))
   \<and> (distinct (liked_by p) \<longrightarrow> distinct (liked_by p'))"

section \<open>Favourites and deletion of posts\<close>

text \<open>
  \<^verbatim>\<open>
  def api_toggle_favorite(post_id):
      user = get_current_user()
      if not user:
          return jsonify({"success": False, "message": "Please login"})
      uid = user['user_id']
      if uid not in user_favorites:
          user_favorites[uid] = []
      if post_id in user_favorites[uid]:
          user_favorites[uid].remove(post_id)
          return jsonify({"success": True, "favorited": False, ...})
      else:
          user_favorites[uid].append(post_id)
          return jsonify({"success": True, "favorited": True, ...})
  \<close>
  The response of a success is \<open>Inr favorited\<close>. The route does not look the post up.
\<close>

definition favorites_of :: "(pystr \<times> pystr list) list \<Rightarrow> pystr \<Rightarrow> pystr list" where
  "favorites_of uf uid = (case map_of uf uid of None \<Rightarrow> [] | Some favs \<Rightarrow> favs)"

definition api_toggle_favorite ::
  "app_state \<Rightarrow> pystr option \<Rightarrow> pystr \<Rightarrow> app_state \<times> (api_error + bool)" where
  "api_toggle_favorite st cur pid =
     (case cur of
        None \<Rightarrow> (st, Inl LoginRequired)
      | Some uid \<Rightarrow>
          (let uf1 = (case map_of (user_favorites st) uid of
                        None \<Rightarrow> AList.update uid [] (user_favorites st)
                      | Some favs \<Rightarrow> user_favorites st)
           in if pid \<in> set (favorites_of uf1 uid)
              then (st\<lparr>user_favorites :=
                          AList.update uid (remove1 pid (favorites_of uf1 uid)) uf1\<rparr>,
                    Inr False)
              else (st\<lparr>user_favorites :=
                          AList.update uid (favorites_of uf1 uid @ [pid]) uf1\<rparr>,
                    Inr True)))"

text \<open>
  \<^verbatim>\<open>
  def api_delete_post(post_id):
      """Delete a post - only the owner can delete their own posts."""
      user = get_current_user()
      if not user:
          return jsonify({"success": False, "message": "Please login to delete posts"})
      uid = user['user_id']
      # Find the post
      for i, post in enumerate(experience_posts):
          if post["id"] == post_id:
              # Check ownership
              if post.get("author_id") != uid:
                  return jsonify({"success": False,
                                  "message": "You can only delete your own posts"})
              # Remove the post
              experience_posts.pop(i)
              # Also remove from favorites
              for u in user_favorites:
                  if post_id in user_favorites[u]:
                      user_favorites[u].remove(post_id)
              return jsonify({"success": True, "message": "Post deleted successfully"})
      return jsonify({"success": False, "message": "Post not found"})
  \<close>
  \<open>delete_loop\<close> is the search: it stops at the first post with the id, and returns the
  list without that post (\<open>pop(i)\<close>) or the failure. \<open>purge_favorites\<close> is the inner
  loop over \<open>user_favorites\<close>; \<open>list.remove\<close> deletes the first occurrence.
\<close>

fun delete_loop :: "pystr \<Rightarrow> pystr \<Rightarrow> post list \<Rightarrow> api_error + post list" where
  "delete_loop uid pid [] = Inl PostNotFound"
| "delete_loop uid pid (post # rest) =
     (if post_id post = pid then
        (if author_id post \<noteq> uid then Inl NotOwner else Inr rest)
      else
        (case delete_loop uid pid rest of
           Inl e \<Rightarrow> Inl e
         | Inr rest' \<Rightarrow> Inr (post # rest')))"

definition purge_favorites :: "pystr \<Rightarrow> (pystr \<times> pystr list) list \<Rightarrow> (pystr \<times> pystr list) list" where
  "purge_favorites pid uf =
     map (\<lambda>(u, favs). (u, if pid \<in> set favs then remove1 pid favs else favs)) uf"

definition api_delete_post ::
  "app_state \<Rightarrow> pystr option \<Rightarrow> pystr \<Rightarrow> app_state \<times> (api_error + unit)" where
  "api_delete_post st cur pid =
     (case cur of
        None \<Rightarrow> (st, Inl LoginRequired)
      | Some uid \<Rightarrow>
          (case delete_loop uid pid (experience_posts st) of
             Inl e \<Rightarrow> (st, Inl e)
           | Inr posts' \<Rightarrow>
               (st\<lparr>experience_posts := posts',
                   user_favorites := purge_favorites pid (user_favorites st)\<rparr>,
                Inr ())))"

section \<open>Points and badges\<close>

text \<open>
  The record \<open>user_achievements[user_id]\<close>. Badge ids and action types are ASCII
  literals in the source and are HOL strings here. \<open>ACHIEVEMENT_BADGES\<close> is given by the
  \<open>points\<close> of each badge, the only key the award reads; the source looks up literal
  keys only, all of them present.
\<close>

record achievement =
  badges :: "string list"
  points :: int
  votes_cast :: int
  offers_shared :: int

definition ACHIEVEMENT_BADGES :: "(string \<times> int) list" where
  "ACHIEVEMENT_BADGES =
     [(''first_vote'', 10), (''voter_10'', 50), (''voter_50'', 200),
      (''offer_shared'', 100), (''verified_offer'', 150), (''top_contributor'', 0)]"

definition badge_points :: "string \<Rightarrow> int" where
  "badge_points b = (case map_of ACHIEVEMENT_BADGES b of None \<Rightarrow> 0 | Some n \<Rightarrow> n)"

text \<open>
  The two statements that award a badge:
  \<^verbatim>\<open>
  user_achievements[user_id]["badges"].append(b)
  user_achievements[user_id]["points"] += ACHIEVEMENT_BADGES[b]["points"]
  \<close>
\<close>

definition grant_badge :: "string \<Rightarrow> achievement \<Rightarrow> achievement" where
  "grant_badge b a = a\<lparr>badges := badges a @ [b], points := points a + badge_points b\<rparr>"

text \<open>
  \<^verbatim>\<open>
  def award_user_points(user_id, points, action_type):
      if user_id not in user_achievements:
          user_achievements[user_id] = {"badges": [], "points": 0,
                                        "votes_cast": 0, "offers_shared": 0}
      user_achievements[user_id]["points"] += points
      if action_type == "vote":
          user_achievements[user_id]["votes_cast"] += 1
          votes = user_achievements[user_id]["votes_cast"]
          if votes == 1 and "first_vote" not in user_achievements[user_id]["badges"]:
              (award first_vote)
          elif votes == 10 and "voter_10" not in user_achievements[user_id]["badges"]:
              (award voter_10)
          elif votes == 50 and "voter_50" not in user_achievements[user_id]["badges"]:
              (award voter_50)
      elif action_type == "offer":
          user_achievements[user_id]["offers_shared"] += 1
          if "offer_shared" not in user_achievements[user_id]["badges"]:
              (award offer_shared)
      if user_achievements[user_id]["points"] >= 500 and \
              "top_contributor" not in user_achievements[user_id]["badges"]:
          user_achievements[user_id]["badges"].append("top_contributor")
  \<close>
  \<open>award_record\<close> is what the function does to the record of the user, \<open>new_achievement\<close>
  the record it creates for a user who has none.
\<close>

definition new_achievement :: achievement where
  "new_achievement = \<lparr>badges = [], points = 0, votes_cast = 0, offers_shared = 0\<rparr>"

definition award_record :: "achievement \<Rightarrow> int \<Rightarrow> string \<Rightarrow> achievement" where
  "award_record a0 pts action_type =
     (let a1 = a0\<lparr>points := points a0 + pts\<rparr>;
          a2 = (if action_type = ''vote'' then
                  (let a = a1\<lparr>votes_cast := votes_cast a1 + 1\<rparr>;
                       votes = votes_cast a
                   in if votes = 1 \<and> ''first_vote'' \<notin> set (badges a)
                      then grant_badge ''first_vote'' a
                      else if votes = 10 \<and> ''voter_10'' \<notin> set (badges a)
                      then grant_badge ''voter_10'' a
                      else if votes = 50 \<and> ''voter_50'' \<notin> set (badges a)
                      then grant_badge ''voter_50'' a
                      else a)
                else if action_type = ''offer'' then
                  (let a = a1\<lparr>offers_shared := offers_shared a1 + 1\<rparr>
                   in if ''offer_shared'' \<notin> set (badges a)
                      then grant_badge ''offer_shared'' a
                      else a)
                else a1)
      in if points a2 \<ge> 500 \<and> ''top_contributor'' \<notin> set (badges a2)
         then a2\<lparr>badges := badges a2 @ [''top_contributor'']\<rparr>
         else a2)"

definition award_user_points ::
  "(pystr \<rightharpoonup> achievement) \<Rightarrow> pystr \<Rightarrow> int \<Rightarrow> string \<Rightarrow> (pystr \<rightharpoonup> achievement)" where
  "award_user_points ua user_id pts action_type =
     ua(user_id \<mapsto>
          award_record (case ua user_id of None \<Rightarrow> new_achievement | Some a \<Rightarrow> a)
            pts action_type)"

section \<open>Company votes\<close>

text \<open>
  A company of \<open>dream_companies\<close>, with the keys the vote route reads or writes (\<open>id\<close>
  is \<open>company_id\<close> here), and the globals the route writes. \<open>company_votes\<close> maps a
  company id to a dictionary from user id to the timestamp of the vote.
\<close>

record company =
  company_id :: pystr
  votes :: int

record vote_state =
  dream_companies :: "company list"
  company_votes :: "pystr \<rightharpoonup> (pystr \<rightharpoonup> datetime)"
  user_achievements :: "pystr \<rightharpoonup> achievement"

text \<open>
  \<^verbatim>\<open>
  def can_vote_for_company(user_id, company_id):
      if company_id not in company_votes:
          company_votes[company_id] = {}
      now = datetime.now()
      today_start = now.replace(hour=0, minute=0, second=0, microsecond=0)
      if user_id in company_votes[company_id]:
          last_vote = datetime.fromisoformat(company_votes[company_id][user_id])
          if last_vote >= today_start:
              return False, "You already voted for this company today"
      return True, ""
  \<close>
  The result is \<open>company_votes\<close> after the call and the first component of the pair.
\<close>

definition votes_on :: "(pystr \<rightharpoonup> (pystr \<rightharpoonup> datetime)) \<Rightarrow> pystr \<Rightarrow> (pystr \<rightharpoonup> datetime)" where
  "votes_on cv cid = (case cv cid of None \<Rightarrow> Map.empty | Some m \<Rightarrow> m)"

definition can_vote_for_company ::
  "(pystr \<rightharpoonup> (pystr \<rightharpoonup> datetime)) \<Rightarrow> pystr \<Rightarrow> pystr \<Rightarrow> datetime
     \<Rightarrow> (pystr \<rightharpoonup> (pystr \<rightharpoonup> datetime)) \<times> bool" where
  "can_vote_for_company cv user_id cid now =
     (let cv1 = (case cv cid of None \<Rightarrow> cv(cid \<mapsto> Map.empty) | Some m \<Rightarrow> cv)
      in if (case votes_on cv1 cid user_id of
               None \<Rightarrow> False
             | Some last_vote \<Rightarrow> dt_ge last_vote (today_start now))
         then (cv1, False)
         else (cv1, True))"

text \<open>
  \<^verbatim>\<open>
  def api_vote_company(company_id):
      user = get_current_user()
      if not user:
          return jsonify({"success": False, "message": "Please login to vote"})
      user_id = user['user_id']
      # Check if can vote
      can_vote, msg = can_vote_for_company(user_id, company_id)
      if not can_vote:
          return jsonify({"success": False, "message": msg, "already_voted": True})
      for company in dream_companies:
          if company["id"] == company_id:
              company["votes"] += 1
              if company_id not in company_votes:
                  company_votes[company_id] = {}
              company_votes[company_id][user_id] = datetime.now().isoformat()
              # Award points and check badges
              award_user_points(user_id, 5, "vote")
              return jsonify({"success": True, "votes": company["votes"]})
      return jsonify({"success": False, "message": "Company not found"})
  \<close>
  \<open>vote_loop\<close> is the \<open>for\<close> loop on the list of companies: it returns the list with
  the first company of that id voted for and the new count, or \<open>None\<close> when the loop ends
  without a match. The response of a success is \<open>Inr votes\<close>.
\<close>

fun vote_loop :: "pystr \<Rightarrow> company list \<Rightarrow> (company list \<times> int) option" where
  "vote_loop cid [] = None"
| "vote_loop cid (c # cs) =
     (if company_id c = cid then Some (c\<lparr>votes := votes c + 1\<rparr> # cs, votes c + 1)
      else (case vote_loop cid cs of
              None \<Rightarrow> None
            | Some (cs', n) \<Rightarrow> Some (c # cs', n)))"

definition api_vote_company ::
  "vote_state \<Rightarrow> pystr option \<Rightarrow> pystr \<Rightarrow> datetime \<Rightarrow> datetime
     \<Rightarrow> vote_state \<times> (api_error + int)" where
  "api_vote_company vs cur cid now_check now_record =
     (case cur of
        None \<Rightarrow> (vs, Inl LoginRequired)
      | Some user_id \<Rightarrow>
          (case can_vote_for_company (company_votes vs) user_id cid now_check of
             (cv1, False) \<Rightarrow> (vs\<lparr>company_votes := cv1\<rparr>, Inl (RateLimited AlreadyVotedToday))
           | (cv1, True) \<Rightarrow>
               (case vote_loop cid (dream_companies vs) of
                  None \<Rightarrow> (vs\<lparr>company_votes := cv1\<rparr>, Inl CompanyNotFound)
                | Some (companies', n) \<Rightarrow>
                    (vs\<lparr>dream_companies := companies',
                        company_votes := cv1(cid \<mapsto> (votes_on cv1 cid)(user_id \<mapsto> now_record)),
                        user_achievements :=
                          award_user_points (user_achievements vs) user_id 5 ''vote''\<rparr>,
                     Inr n))))"

section \<open>Offer showcase\<close>

text \<open>
  An offer of \<open>offer_showcase\<close>, with the keys the like route reads or writes (\<open>id\<close>,
  \<open>likes\<close>); every offer of the source, seeded or submitted, has the key \<open>likes\<close>.
  \<^verbatim>\<open>
  def api_like_offer(offer_id):
      user = get_current_user()
      if not user:
          return jsonify({"success": False, "message": "Please login first"})
      for offer in offer_showcase:
          if offer["id"] == offer_id:
              offer["likes"] = offer.get("likes", 0) + 1
              return jsonify({"success": True, "likes": offer["likes"]})
      return jsonify({"success": False, "message": "Offer not found"})
  \<close>
  The route reads and writes \<open>offer_showcase\<close> only, neither a clock nor any record of who
  liked what. The response of a success is \<open>Inr likes\<close>.
\<close>

record offer =
  offer_id :: pystr
  offer_likes :: int

fun like_offer_loop :: "pystr \<Rightarrow> offer list \<Rightarrow> offer list \<times> (api_error + int)" where
  "like_offer_loop oid [] = ([], Inl OfferNotFound)"
| "like_offer_loop oid (offer # rest) =
     (if offer_id offer = oid
      then (offer\<lparr>offer_likes := offer_likes offer + 1\<rparr> # rest, Inr (offer_likes offer + 1))
      else (case like_offer_loop oid rest of
              (rest', r) \<Rightarrow> (offer # rest', r)))"

definition api_like_offer ::
  "offer list \<Rightarrow> pystr option \<Rightarrow> pystr \<Rightarrow> offer list \<times> (api_error + int)" where
  "api_like_offer offer_showcase cur oid =
     (case cur of
        None \<Rightarrow> (offer_showcase, Inl LoginRequired)
      | Some user \<Rightarrow> like_offer_loop oid offer_showcase)"

text \<open>A sequence of calls of the offer like route on one offer, one for each caller.\<close>

fun like_offer_calls :: "offer list \<Rightarrow> pystr list \<Rightarrow> pystr \<Rightarrow> offer list" where
  "like_offer_calls offer_showcase [] oid = offer_showcase"
| "like_offer_calls offer_showcase (u # us) oid =
     like_offer_calls (fst (api_like_offer offer_showcase (Some u) oid)) us oid"

section \<open>Repeated vote awards\<close>

text \<open>
  \<open>award_votes ua user_id pts n\<close> is \<open>user_achievements\<close> after \<open>n\<close> calls
  \<open>award_user_points(user_id, pts, "vote")\<close> in a row, and \<open>achievement_of\<close> the record
  the next call works on. The rest of this section describes the record after \<open>k\<close> such
  calls for a user who had none, for the proofs: the vote badges it holds, in the order
  of their award, the sum of their bonuses, and the predicate \<open>votes_counted\<close> that ties
  them to the record.
\<close>

fun award_votes :: "(pystr \<rightharpoonup> achievement) \<Rightarrow> pystr \<Rightarrow> int \<Rightarrow> nat \<Rightarrow> (pystr \<rightharpoonup> achievement)" where
  "award_votes ua user_id pts 0 = ua"
| "award_votes ua user_id pts (Suc n) =
     award_user_points (award_votes ua user_id pts n) user_id pts ''vote''"

definition vote_badges :: "nat \<Rightarrow> string list" where
  "vote_badges k =
     (if 50 \<le> k then [''first_vote'', ''voter_10'', ''voter_50'']
      else if 10 \<le> k then [''first_vote'', ''voter_10'']
      else if 1 \<le> k then [''first_vote'']
      else [])"

definition vote_bonus :: "nat \<Rightarrow> int" where
  "vote_bonus k = (if 50 \<le> k then 260 else if 10 \<le> k then 60 else if 1 \<le> k then 10 else 0)"

definition votes_counted :: "int \<Rightarrow> nat \<Rightarrow> achievement \<Rightarrow> bool" where
  "votes_counted p k a \<longleftrightarrow>
     votes_cast a = int k
   \<and> filter (\<lambda>b. b \<noteq> ''top_contributor'') (badges a) = vote_badges k
   \<and> distinct (badges a)
   \<and> points a = int k * p + vote_bonus k
   \<and> (p < 44 \<and> k \<le> 10 \<longrightarrow> ''top_contributor'' \<notin> set (badges a))"

definition achievement_of :: "(pystr \<rightharpoonup> achievement) \<Rightarrow> pystr \<Rightarrow> achievement" where
  "achievement_of ua user_id = (case ua user_id of None \<Rightarrow> new_achievement | Some a \<Rightarrow> a)"


section \<open>Scenarios\<close>

text \<open>
  Data for the worked instances of the theorems below: a store of 51 posts numbered 1 to
  51 (post \<open>n\<close> has the id made of the one code point \<open>n\<close>), none liked yet, and one like
  for each of the first 50 of them, all on day 100.
\<close>

definition example_post :: "nat \<Rightarrow> post" where
  "example_post n = \<lparr>post_id = [n], author_id = py ''system'', likes = 0, liked_by = []\<rparr>"

definition example_state :: app_state where
  "example_state =
     \<lparr>experience_posts = map example_post [1..<52], user_likes = Map.empty, user_favorites = []\<rparr>"

definition example_likes :: "(pystr \<times> datetime \<times> datetime) list" where
  "example_likes = map (\<lambda>n. ([n], DateTime 100 n, DateTime 100 (n + 1))) [1..<51]"

text \<open>The 50 likes as calls of the like route by the user \<open>ab12cd34\<close>.\<close>

definition example_requests :: "(pystr option \<times> pystr \<times> datetime \<times> datetime) list" where
  "example_requests = map (\<lambda>(pid, t1, t2). (Some (py ''ab12cd34''), pid, t1, t2)) example_likes"

section \<open>Properties of the string functions\<close>

lemma split_char_nonempty: "split_char c s \<noteq> []"
  by (induction s) (auto split: list.splits)

lemma split_char_pieces: "p \<in> set (split_char c s) \<Longrightarrow> c \<notin> set p"
proof (induction s arbitrary: p)
  case Nil
  then show ?case by simp
next
  case (Cons x xs)
  show ?case
  proof (cases "x = c")
    case True
    with Cons show ?thesis by auto
  next
    case False
    obtain q qs where q: "split_char c xs = q # qs"
      using split_char_nonempty [of c xs] by (cases "split_char c xs") auto
    with False Cons.prems have "p = x # q \<or> p \<in> set qs" by auto
    then show ?thesis
    proof
      assume "p = x # q"
      moreover have "c \<notin> set q" using Cons.IH [of q] q by simp
      ultimately show ?thesis using False by auto
    next
      assume "p \<in> set qs"
      then show ?thesis using Cons.IH [of p] q by simp
    qed
  qed
qed

lemma not_member_split: "c \<in> set uid \<Longrightarrow> uid \<notin> set (split_char c conv_id)"
  using split_char_pieces by blast

lemma unread_loop_underscore:
  "95 \<in> set uid \<Longrightarrow> unread_loop uid pm n = n"
  by (induction pm arbitrary: n) (auto simp: not_member_split)

lemma conversations_loop_underscore:
  "95 \<in> set uid \<Longrightarrow> conversations_loop db uid pm acc = Inr acc"
  by (induction pm arbitrary: acc) (auto simp: not_member_split)

lemma moderation_loop_accepts:
  "fst (moderation_loop ws text) = (\<forall>w \<in> set ws. \<not> sublist w text)"
  by (induction ws) auto

lemma moderation_loop_accept_msg:
  "fst (moderation_loop ws text) \<Longrightarrow> snd (moderation_loop ws text) = []"
  by (induction ws) (auto split: if_splits)

lemma moderation_loop_first:
  "\<not> fst (moderation_loop ws text) \<Longrightarrow>
   \<exists>i < length ws. sublist (ws ! i) text \<and> (\<forall>j < i. \<not> sublist (ws ! j) text)
      \<and> snd (moderation_loop ws text) = py ''Content contains prohibited word: '' @ ws ! i"
proof (induction ws)
  case Nil
  then show ?case by simp
next
  case (Cons w ws)
  show ?case
  proof (cases "sublist w text")
    case True
    then have "sublist ((w # ws) ! 0) text \<and> (\<forall>j < 0. \<not> sublist ((w # ws) ! j) text)
        \<and> snd (moderation_loop (w # ws) text)
            = py ''Content contains prohibited word: '' @ (w # ws) ! 0"
      by simp
    then show ?thesis by blast
  next
    case False
    with Cons.prems have "\<not> fst (moderation_loop ws text)" by simp
    from Cons.IH [OF this] obtain i where i: "i < length ws" "sublist (ws ! i) text"
      "\<forall>j < i. \<not> sublist (ws ! j) text"
      "snd (moderation_loop ws text) = py ''Content contains prohibited word: '' @ ws ! i"
      by blast
    have "\<forall>j < Suc i. \<not> sublist ((w # ws) ! j) text"
      using False i(3) by (auto simp: less_Suc_eq_0_disj)
    with i False have "Suc i < length (w # ws) \<and> sublist ((w # ws) ! Suc i) text
        \<and> (\<forall>j < Suc i. \<not> sublist ((w # ws) ! j) text)
        \<and> snd (moderation_loop (w # ws) text)
            = py ''Content contains prohibited word: '' @ (w # ws) ! Suc i"
      by simp
    then show ?thesis by blast
  qed
qed

section \<open>Properties of the like route\<close>

lemma dt_ge_today_start: "dt_ge ts (today_start now) \<longleftrightarrow> dt_day now \<le> dt_day ts"
  by (auto simp: dt_ge_def today_start_def)

lemma like_body_unlike:
  "user_id \<in> set (liked_by post) \<Longrightarrow>
   like_body user_id pid t1 t2 ul post =
     (post\<lparr>liked_by := remove1 user_id (liked_by post), likes := max 0 (likes post - 1)\<rparr>,
      (case ul user_id of None \<Rightarrow> ul | Some m \<Rightarrow> ul(user_id \<mapsto> AList.delete pid m)),
      Inr (max 0 (likes post - 1), False))"
  by (simp add: like_body_def Let_def)

lemma like_body_refused:
  "user_id \<notin> set (liked_by post) \<Longrightarrow> can_like_post ul user_id pid t1 = (ul1, Some msg) \<Longrightarrow>
   like_body user_id pid t1 t2 ul post = (post, ul1, Inl (RateLimited msg))"
  by (simp add: like_body_def)

lemma like_body_like:
  "user_id \<notin> set (liked_by post) \<Longrightarrow> can_like_post ul user_id pid t1 = (ul1, None) \<Longrightarrow>
   like_body user_id pid t1 t2 ul post =
     (post\<lparr>likes := likes post + 1, liked_by := liked_by post @ [user_id]\<rparr>,
      ul1(user_id \<mapsto> AList.update pid t2 (likes_of ul1 user_id)),
      Inr (likes post + 1, True))"
  by (simp add: like_body_def Let_def)

lemma likes_of_can_like_post:
  "likes_of (fst (can_like_post ul u pid t)) v = likes_of ul v"
  by (cases "ul u") (auto simp: can_like_post_def likes_of_def Let_def)

lemma can_like_post_result:
  "snd (can_like_post ul u pid t) =
     (if (\<exists>ts. map_of (likes_of ul u) pid = Some ts \<and> dt_day t \<le> dt_day ts)
      then Some AlreadyLikedToday
      else if 50 \<le> today_likes (likes_of ul u) t then Some DailyLimitReached
      else None)"
  by (cases "ul u")
     (auto simp: can_like_post_def likes_of_def Let_def dt_ge_today_start today_likes_def
           split: option.splits)

lemma can_like_post_known_user:
  "ul u = Some m \<Longrightarrow> fst (can_like_post ul u pid t) = ul"
  by (simp add: can_like_post_def Let_def)

lemma like_body_post_id:
  "like_body u pid t1 t2 ul p = (p', ul', r) \<Longrightarrow> post_id p' = post_id p"
  by (auto simp: like_body_def Let_def split: if_splits prod.splits option.splits)

lemma like_body_liked:
  assumes "like_body u pid t1 t2 ul p = (p', ul', Inr (n, True))"
  shows "u \<notin> set (liked_by p) \<and> p' = p\<lparr>likes := likes p + 1, liked_by := liked_by p @ [u]\<rparr>
       \<and> n = likes p + 1 \<and> likes_of ul' u = AList.update pid t2 (likes_of ul u)
       \<and> snd (can_like_post ul u pid t1) = None"
proof -
  have nin: "u \<notin> set (liked_by p)"
    using assms like_body_unlike [of u p pid t1 t2 ul] by auto
  obtain ul1 e where c: "can_like_post ul u pid t1 = (ul1, e)"
    by (cases "can_like_post ul u pid t1") auto
  have e: "e = None"
  proof (cases e)
    case (Some msg)
    with assms like_body_refused [OF nin c [unfolded Some], of t2] show ?thesis by simp
  qed simp
  have "likes_of ul1 u = likes_of ul u"
    using likes_of_can_like_post [of ul u pid t1 u] c by simp
  with assms like_body_like [OF nin c [unfolded e], of t2] nin c e show ?thesis
    by (auto simp: likes_of_def)
qed

lemma like_loop_find_none:
  "find (\<lambda>p. post_id p = pid) posts = None \<Longrightarrow>
   like_loop u pid t1 t2 ul posts = (posts, ul, Inl PostNotFound)"
  by (induction posts) (auto split: if_splits)

lemma like_loop_find_some:
  assumes "find (\<lambda>p. post_id p = pid) posts = Some p"
      and "like_body u pid t1 t2 ul p = (p', ul', r)"
  shows "\<exists>pre suf. posts = pre @ p # suf \<and> (\<forall>q \<in> set pre. post_id q \<noteq> pid)
            \<and> like_loop u pid t1 t2 ul posts = (pre @ p' # suf, ul', r)"
  using assms
proof (induction posts)
  case Nil
  then show ?case by simp
next
  case (Cons a posts)
  show ?case
  proof (cases "post_id a = pid")
    case True
    with Cons.prems have "a = p" by simp
    with True Cons.prems(2)
    have "a # posts = [] @ p # posts \<and> (\<forall>q \<in> set []. post_id q \<noteq> pid)
            \<and> like_loop u pid t1 t2 ul (a # posts) = ([] @ p' # posts, ul', r)"
      by simp
    then show ?thesis by blast
  next
    case False
    with Cons.prems have "find (\<lambda>p. post_id p = pid) posts = Some p" by simp
    from Cons.IH [OF this Cons.prems(2)] obtain pre suf where
      ps: "posts = pre @ p # suf" "\<forall>q \<in> set pre. post_id q \<noteq> pid"
          "like_loop u pid t1 t2 ul posts = (pre @ p' # suf, ul', r)"
      by blast
    with False
    have "a # posts = (a # pre) @ p # suf \<and> (\<forall>q \<in> set (a # pre). post_id q \<noteq> pid)
            \<and> like_loop u pid t1 t2 ul (a # posts) = ((a # pre) @ p' # suf, ul', r)"
      by simp
    then show ?thesis by blast
  qed
qed

lemma find_post_split:
  "\<forall>q \<in> set pre. post_id q \<noteq> pid \<Longrightarrow> post_id p = pid \<Longrightarrow>
   find (\<lambda>p. post_id p = pid) (pre @ p # suf) = Some p"
  by (induction pre) auto

lemma find_post_other:
  "post_id p = pid \<Longrightarrow> post_id p' = pid \<Longrightarrow> q \<noteq> pid \<Longrightarrow>
   find (\<lambda>p. post_id p = q) (pre @ p' # suf) = find (\<lambda>p. post_id p = q) (pre @ p # suf)"
  by (induction pre) auto

lemma find_post_id: "find (\<lambda>p. post_id p = pid) posts = Some p \<Longrightarrow> post_id p = pid"
  by (induction posts) (auto split: if_splits)

lemma api_like_post_missing:
  "find (\<lambda>p. post_id p = pid) (experience_posts st) = None \<Longrightarrow>
   api_like_post st (Some u) pid t1 t2 = (st, Inl PostNotFound)"
  by (simp add: api_like_post_def like_loop_find_none)

lemma api_like_post_found:
  assumes f: "find (\<lambda>p. post_id p = pid) (experience_posts st) = Some p"
      and b: "like_body u pid t1 t2 (user_likes st) p = (p', ul', r)"
  shows "\<exists>pre suf. experience_posts st = pre @ p # suf \<and> (\<forall>q \<in> set pre. post_id q \<noteq> pid)
           \<and> api_like_post st (Some u) pid t1 t2
               = (st\<lparr>experience_posts := pre @ p' # suf, user_likes := ul'\<rparr>, r)"
proof -
  from like_loop_find_some [OF f b] obtain pre suf where
    ps: "experience_posts st = pre @ p # suf" "\<forall>q \<in> set pre. post_id q \<noteq> pid"
        "like_loop u pid t1 t2 (user_likes st) (experience_posts st) = (pre @ p' # suf, ul', r)"
    by blast
  then have "api_like_post st (Some u) pid t1 t2
               = (st\<lparr>experience_posts := pre @ p' # suf, user_likes := ul'\<rparr>, r)"
    by (simp add: api_like_post_def)
  with ps show ?thesis by blast
qed

lemma like_again_unlikes:
  assumes a: "api_like_post st (Some u) pid t1 t2 = (st1, Inr (n, True))"
  shows "snd (api_like_post st1 (Some u) pid t3 t4) = Inr (max 0 (n - 1), False)"
proof (cases "find (\<lambda>p. post_id p = pid) (experience_posts st)")
  case None
  with a api_like_post_missing [OF None, of u t1 t2] show ?thesis by simp
next
  case (Some p)
  obtain p' ul' r where b: "like_body u pid t1 t2 (user_likes st) p = (p', ul', r)"
    by (cases "like_body u pid t1 t2 (user_likes st) p") auto
  from api_like_post_found [OF Some b] obtain pre suf where
    ps: "experience_posts st = pre @ p # suf" "\<forall>q \<in> set pre. post_id q \<noteq> pid"
        "api_like_post st (Some u) pid t1 t2
               = (st\<lparr>experience_posts := pre @ p' # suf, user_likes := ul'\<rparr>, r)"
    by blast
  with a have r: "r = Inr (n, True)"
    and st1: "st1 = st\<lparr>experience_posts := pre @ p' # suf, user_likes := ul'\<rparr>" by simp_all
  from like_body_liked [OF b [unfolded r]]
  have p': "p' = p\<lparr>likes := likes p + 1, liked_by := liked_by p @ [u]\<rparr>" "n = likes p + 1"
    by simp_all
  have pid: "post_id p' = pid" using find_post_id [OF Some] p' by simp
  have f1: "find (\<lambda>p. post_id p = pid) (experience_posts st1) = Some p'"
    using find_post_split [OF ps(2) pid] st1 by simp
  have in': "u \<in> set (liked_by p')" using p' by simp
  have b1: "like_body u pid t3 t4 (user_likes st1) p' =
     (p'\<lparr>liked_by := remove1 u (liked_by p'), likes := max 0 (likes p' - 1)\<rparr>,
      (case user_likes st1 u of None \<Rightarrow> user_likes st1
         | Some m \<Rightarrow> (user_likes st1)(u \<mapsto> AList.delete pid m)),
      Inr (max 0 (likes p' - 1), False))"
    by (rule like_body_unlike [OF in'])
  from api_like_post_found [OF f1 b1] obtain pre' suf' where
    "api_like_post st1 (Some u) pid t3 t4
       = (st1\<lparr>experience_posts := pre' @ p'\<lparr>liked_by := remove1 u (liked_by p'),
                   likes := max 0 (likes p' - 1)\<rparr> # suf',
              user_likes := (case user_likes st1 u of None \<Rightarrow> user_likes st1
                 | Some m \<Rightarrow> (user_likes st1)(u \<mapsto> AList.delete pid m))\<rparr>,
          Inr (max 0 (likes p' - 1), False))"
    by blast
  then show ?thesis using p' by simp
qed

lemma like_refused_with_record:
  assumes f: "find (\<lambda>p. post_id p = pid) (experience_posts st) = Some p"
      and nin: "u \<notin> set (liked_by p)"
      and rec: "map_of (likes_of (user_likes st) u) pid = Some ts"
      and today: "dt_day t1 \<le> dt_day ts"
  shows "api_like_post st (Some u) pid t1 t2 = (st, Inl (RateLimited AlreadyLikedToday))"
proof -
  from rec obtain m where m: "user_likes st u = Some m"
    by (cases "user_likes st u") (auto simp: likes_of_def)
  have "snd (can_like_post (user_likes st) u pid t1) = Some AlreadyLikedToday"
    using rec today by (auto simp: can_like_post_result)
  moreover have "fst (can_like_post (user_likes st) u pid t1) = user_likes st"
    using m by (simp add: can_like_post_known_user)
  ultimately have c: "can_like_post (user_likes st) u pid t1 = (user_likes st, Some AlreadyLikedToday)"
    by (cases "can_like_post (user_likes st) u pid t1") simp
  from api_like_post_found [OF f like_body_refused [OF nin c, of t2]] obtain pre suf where
    "experience_posts st = pre @ p # suf"
    "api_like_post st (Some u) pid t1 t2
               = (st\<lparr>experience_posts := pre @ p # suf, user_likes := user_likes st\<rparr>,
                  Inl (RateLimited AlreadyLikedToday))"
    by blast
  then show ?thesis by simp
qed


lemma api_like_post_success:
  assumes a: "api_like_post st (Some u) pid t1 t2 = (st1, Inr (n, True))"
  shows "likes_of (user_likes st1) u = AList.update pid t2 (likes_of (user_likes st) u)
       \<and> (\<forall>q. q \<noteq> pid \<longrightarrow> find (\<lambda>p. post_id p = q) (experience_posts st1)
                              = find (\<lambda>p. post_id p = q) (experience_posts st))"
proof (cases "find (\<lambda>p. post_id p = pid) (experience_posts st)")
  case None
  with a api_like_post_missing [OF None, of u t1 t2] show ?thesis by simp
next
  case (Some p)
  obtain p' ul' r where b: "like_body u pid t1 t2 (user_likes st) p = (p', ul', r)"
    by (cases "like_body u pid t1 t2 (user_likes st) p") auto
  from api_like_post_found [OF Some b] obtain pre suf where
    ps: "experience_posts st = pre @ p # suf" "\<forall>q \<in> set pre. post_id q \<noteq> pid"
        "api_like_post st (Some u) pid t1 t2
               = (st\<lparr>experience_posts := pre @ p' # suf, user_likes := ul'\<rparr>, r)"
    by blast
  with a have r: "r = Inr (n, True)"
    and st1: "st1 = st\<lparr>experience_posts := pre @ p' # suf, user_likes := ul'\<rparr>" by simp_all
  from like_body_liked [OF b [unfolded r]]
  have l: "likes_of ul' u = AList.update pid t2 (likes_of (user_likes st) u)" by simp
  have "post_id p = pid" by (rule find_post_id [OF Some])
  moreover have "post_id p' = pid" using like_body_post_id [OF b] calculation by simp
  ultimately have "\<forall>q. q \<noteq> pid \<longrightarrow> find (\<lambda>p. post_id p = q) (pre @ p' # suf)
                              = find (\<lambda>p. post_id p = q) (pre @ p # suf)"
    using find_post_other by blast
  with l st1 ps(1) show ?thesis by simp
qed

lemma record_likes_Nil [simp]: "record_likes m [] = m"
  by (simp add: record_likes_def)

lemma record_likes_Cons [simp]:
  "record_likes m ((pid, t1, t2) # ls) = record_likes (AList.update pid t2 m) ls"
  by (simp add: record_likes_def)

lemma run_likes_success:
  assumes "run_like_requests st (map (\<lambda>(pid, t1, t2). (Some u, pid, t1, t2)) ls) = (st', rs)"
      and "\<forall>r \<in> set rs. case r of Inl e \<Rightarrow> False | Inr (n, liked) \<Rightarrow> liked"
  shows "likes_of (user_likes st') u = record_likes (likes_of (user_likes st) u) ls
       \<and> (\<forall>q. q \<notin> fst ` set ls \<longrightarrow> find (\<lambda>p. post_id p = q) (experience_posts st')
                              = find (\<lambda>p. post_id p = q) (experience_posts st))"
  using assms
proof (induction ls arbitrary: st rs)
  case Nil
  then show ?case by simp
next
  case (Cons l ls)
  obtain pid t1 t2 where l: "l = (pid, t1, t2)" by (cases l) auto
  obtain st1 r where a: "api_like_post st (Some u) pid t1 t2 = (st1, r)"
    by (cases "api_like_post st (Some u) pid t1 t2") auto
  obtain st2 rs' where b: "run_like_requests st1 (map (\<lambda>(pid, t1, t2). (Some u, pid, t1, t2)) ls) = (st2, rs')"
    by (cases "run_like_requests st1 (map (\<lambda>(pid, t1, t2). (Some u, pid, t1, t2)) ls)") auto
  from Cons.prems(1) l a b have e: "st' = st2" "rs = r # rs'" by simp_all
  with Cons.prems(2) obtain n where r: "r = Inr (n, True)"
    by (cases r) (auto split: prod.splits)
  from e Cons.prems(2) have ok: "\<forall>r \<in> set rs'. case r of Inl e \<Rightarrow> False | Inr (n, liked) \<Rightarrow> liked"
    by simp
  note s1 = api_like_post_success [OF a [unfolded r]]
  from b e have b': "run_like_requests st1 (map (\<lambda>(pid, t1, t2). (Some u, pid, t1, t2)) ls) = (st', rs')"
    by simp
  note s2 = Cons.IH [OF b' ok]
  from s1 s2 e l show ?case by auto
qed

lemma record_likes_other:
  "q \<notin> fst ` set ls \<Longrightarrow> map_of (record_likes m ls) q = map_of m q"
  by (induction ls arbitrary: m) (auto simp: update_conv')

lemma record_likes_recorded:
  "distinct (map fst ls) \<Longrightarrow> (pid, t1, t2) \<in> set ls \<Longrightarrow> map_of (record_likes m ls) pid = Some t2"
proof (induction ls arbitrary: m)
  case Nil
  then show ?case by simp
next
  case (Cons l ls)
  obtain p a b where l: "l = (p, a, b)" by (cases l) auto
  show ?case
  proof (cases "(pid, t1, t2) = l")
    case True
    with l Cons.prems(1) have "pid \<notin> fst ` set ls" by auto
    from record_likes_other [OF this] True l show ?thesis by (simp add: update_conv')
  next
    case False
    with Cons.prems have "(pid, t1, t2) \<in> set ls" "distinct (map fst ls)" by auto
    from Cons.IH [OF this(2) this(1)] l show ?thesis by simp
  qed
qed

lemma set_update_subset: "set (AList.update k v al) \<subseteq> insert (k, v) (set al)"
  by (induction al) auto

lemma record_likes_entries:
  "(q, ts) \<in> set (record_likes m ls) \<Longrightarrow> (q, ts) \<in> set m \<or> (\<exists>t1. (q, t1, ts) \<in> set ls)"
proof (induction ls arbitrary: m)
  case Nil
  then show ?case by simp
next
  case (Cons l ls)
  obtain p a b where l: "l = (p, a, b)" by (cases l) auto
  with Cons.prems have "(q, ts) \<in> set (record_likes (AList.update p b m) ls)" by simp
  from Cons.IH [OF this] have "(q, ts) \<in> set (AList.update p b m) \<or> (\<exists>t1. (q, t1, ts) \<in> set ls)" .
  then show ?case using set_update_subset [of p b m] l by auto
qed

lemma today_likes_none:
  "\<forall>(p, ts) \<in> set m. dt_day ts < dt_day now \<Longrightarrow> today_likes m now = 0"
  by (auto simp: today_likes_def dt_ge_today_start filter_empty_conv)

lemma like_new_post:
  assumes f: "find (\<lambda>p. post_id p = q) (experience_posts st) = Some p"
      and nin: "u \<notin> set (liked_by p)"
      and c: "snd (can_like_post (user_likes st) u q t1) = e"
  shows "snd (api_like_post st (Some u) q t1 t2) =
           (case e of Some msg \<Rightarrow> Inl (RateLimited msg) | None \<Rightarrow> Inr (likes p + 1, True))
       \<and> (e \<noteq> None \<longrightarrow> experience_posts (fst (api_like_post st (Some u) q t1 t2)) = experience_posts st)"
proof -
  obtain ul1 where c1: "can_like_post (user_likes st) u q t1 = (ul1, e)"
    using c by (cases "can_like_post (user_likes st) u q t1") auto
  show ?thesis
  proof (cases e)
    case None
    from api_like_post_found [OF f like_body_like [OF nin c1 [unfolded None], of t2]]
    show ?thesis using None by auto
  next
    case (Some msg)
    from api_like_post_found [OF f like_body_refused [OF nin c1 [unfolded Some], of t2]]
    show ?thesis using Some by auto
  qed
qed


lemma today_likes_day: "dt_day a = dt_day b \<Longrightarrow> today_likes m a = today_likes m b"
  by (simp add: today_likes_def dt_ge_today_start)

lemma today_likes_update: "today_likes (AList.update k v m) now \<le> today_likes m now + 1"
  unfolding today_likes_def by (induction m) auto

lemma fresh_likes_succeed:
  assumes "distinct (map fst ls)"
      and "today_likes (likes_of (user_likes st) u) (DateTime d 0) + length ls \<le> 50"
      and "\<forall>(pid, t1, t2) \<in> set ls. dt_day t1 = d
              \<and> map_of (likes_of (user_likes st) u) pid = None
              \<and> (\<exists>p. find (\<lambda>p. post_id p = pid) (experience_posts st) = Some p
                      \<and> u \<notin> set (liked_by p))"
  shows "\<forall>r \<in> set (snd (run_like_requests st (map (\<lambda>(pid, t1, t2). (Some u, pid, t1, t2)) ls))).
           case r of Inl e \<Rightarrow> False | Inr (n, liked) \<Rightarrow> liked"
  using assms
proof (induction ls arbitrary: st)
  case Nil
  then show ?case by simp
next
  case (Cons l ls)
  obtain pid t1 t2 where l: "l = (pid, t1, t2)" by (cases l) auto
  let ?m = "likes_of (user_likes st) u"
  from Cons.prems(3) l obtain p where
    h: "dt_day t1 = d" "map_of ?m pid = None"
       "find (\<lambda>p. post_id p = pid) (experience_posts st) = Some p" "u \<notin> set (liked_by p)"
    by auto
  have "today_likes ?m t1 = today_likes ?m (DateTime d 0)"
    by (rule today_likes_day) (simp add: h(1))
  with Cons.prems(2) have "today_likes ?m t1 < 50" by simp
  with h(2) have "snd (can_like_post (user_likes st) u pid t1) = None"
    by (simp add: can_like_post_result)
  from like_new_post [OF h(3) h(4) this, of t2]
  have r: "snd (api_like_post st (Some u) pid t1 t2) = Inr (likes p + 1, True)" by simp
  obtain st1 where a: "api_like_post st (Some u) pid t1 t2 = (st1, Inr (likes p + 1, True))"
    using r by (cases "api_like_post st (Some u) pid t1 t2") auto
  note s = api_like_post_success [OF a]
  have d': "distinct (map fst ls)" and nin: "pid \<notin> fst ` set ls"
    using Cons.prems(1) l by auto
  have "today_likes (likes_of (user_likes st1) u) (DateTime d 0) \<le> today_likes ?m (DateTime d 0) + 1"
    using s today_likes_update [of pid t2 ?m] by simp
  with Cons.prems(2) have b: "today_likes (likes_of (user_likes st1) u) (DateTime d 0) + length ls \<le> 50"
    by simp
  have c: "\<forall>(pid, t1, t2) \<in> set ls. dt_day t1 = d
              \<and> map_of (likes_of (user_likes st1) u) pid = None
              \<and> (\<exists>p. find (\<lambda>p. post_id p = pid) (experience_posts st1) = Some p
                      \<and> u \<notin> set (liked_by p))"
  proof (clarify)
    fix q a b assume mem: "(q, a, b) \<in> set ls"
    with nin have ne: "q \<noteq> pid" by force
    from mem Cons.prems(3) have
      "dt_day a = d \<and> map_of ?m q = None
        \<and> (\<exists>p. find (\<lambda>p. post_id p = q) (experience_posts st) = Some p \<and> u \<notin> set (liked_by p))"
      by auto
    with s ne show "dt_day a = d
              \<and> map_of (likes_of (user_likes st1) u) q = None
              \<and> (\<exists>p. find (\<lambda>p. post_id p = q) (experience_posts st1) = Some p
                      \<and> u \<notin> set (liked_by p))"
      by (simp add: update_conv')
  qed
  note ih = Cons.IH [OF d' b c]
  obtain st2 rs where run: "run_like_requests st1 (map (\<lambda>(pid, t1, t2). (Some u, pid, t1, t2)) ls) = (st2, rs)"
    by (cases "run_like_requests st1 (map (\<lambda>(pid, t1, t2). (Some u, pid, t1, t2)) ls)") auto
  with ih a l show ?case by simp
qed

lemma find_app:
  "find P (xs @ ys) = (case find P xs of None \<Rightarrow> find P ys | Some x \<Rightarrow> Some x)"
  by (induction xs) auto

lemma find_example_post:
  "find (\<lambda>p. post_id p = [k]) (map example_post [i..<j])
     = (if i \<le> k \<and> k < j then Some (example_post k) else None)"
proof (induction j)
  case 0
  then show ?case by simp
next
  case (Suc j)
  show ?case
  proof (cases "i \<le> j")
    case True
    then show ?thesis using Suc by (auto simp: find_app example_post_def)
  next
    case False
    then show ?thesis by simp
  qed
qed

lemma example_likes_fresh:
  "\<forall>r \<in> set (snd (run_like_requests example_state
            (map (\<lambda>(pid, t1, t2). (Some (py ''ab12cd34''), pid, t1, t2)) example_likes))).
           case r of Inl e \<Rightarrow> False | Inr (n, liked) \<Rightarrow> liked"
proof (rule fresh_likes_succeed [where d = 100])
  show "distinct (map fst example_likes)"
    by (simp add: example_likes_def distinct_map comp_def inj_on_def)
  show "today_likes (likes_of (user_likes example_state) (py ''ab12cd34'')) (DateTime 100 0)
          + length example_likes \<le> 50"
    by (simp add: example_state_def example_likes_def likes_of_def today_likes_def)
  show "\<forall>(pid, t1, t2) \<in> set example_likes. dt_day t1 = 100
              \<and> map_of (likes_of (user_likes example_state) (py ''ab12cd34'')) pid = None
              \<and> (\<exists>p. find (\<lambda>p. post_id p = pid) (experience_posts example_state) = Some p
                      \<and> py ''ab12cd34'' \<notin> set (liked_by p))"
    by (auto simp: example_state_def example_likes_def likes_of_def find_example_post
          example_post_def)
qed

lemma like_body_difference:
  assumes b: "like_body u pid t1 t2 ul post = (post', ul', r)"
  shows "(int (length (liked_by post)) \<le> likes post \<longrightarrow>
            likes post' - int (length (liked_by post')) = likes post - int (length (liked_by post)))
       \<and> (distinct (liked_by post) \<longrightarrow> distinct (liked_by post'))"
proof (cases "u \<in> set (liked_by post)")
  case True
  then have pos: "0 < length (liked_by post)" by (cases "liked_by post") auto
  from b like_body_unlike [OF True, of pid t1 t2 ul]
  have p: "post' = post\<lparr>liked_by := remove1 u (liked_by post), likes := max 0 (likes post - 1)\<rparr>"
    by simp
  have "int (length (liked_by post) - 1) = int (length (liked_by post)) - 1"
    using pos by arith
  then have l: "int (length (remove1 u (liked_by post))) = int (length (liked_by post)) - 1"
    using True by (simp add: length_remove1)
  have "int (length (liked_by post)) \<le> likes post \<longrightarrow>
          max 0 (likes post - 1) - int (length (remove1 u (liked_by post)))
            = likes post - int (length (liked_by post))"
    using l pos by auto
  with p show ?thesis by simp
next
  case False
  obtain ul1 e where c: "can_like_post ul u pid t1 = (ul1, e)"
    by (cases "can_like_post ul u pid t1") auto
  show ?thesis
  proof (cases e)
    case None
    from b like_body_like [OF False c [unfolded None], of t2]
    have "post' = post\<lparr>likes := likes post + 1, liked_by := liked_by post @ [u]\<rparr>" by simp
    with False show ?thesis by simp
  next
    case (Some msg)
    from b like_body_refused [OF False c [unfolded Some], of t2] have "post' = post" by simp
    then show ?thesis by simp
  qed
qed

lemma kept_refl: "kept p p"
  by (simp add: kept_def)

lemma kept_trans: "kept p q \<Longrightarrow> kept q r \<Longrightarrow> kept p r"
  unfolding kept_def by auto

lemma like_loop_kept:
  "like_loop u pid t1 t2 ul posts = (posts', ul', r) \<Longrightarrow>
   length posts' = length posts \<and> (\<forall>i < length posts. kept (posts ! i) (posts' ! i))"
proof (induction posts arbitrary: posts' ul' r)
  case Nil
  then show ?case by simp
next
  case (Cons post rest)
  show ?case
  proof (cases "post_id post = pid")
    case True
    obtain post' ul'' r' where b: "like_body u pid t1 t2 ul post = (post', ul'', r')"
      by (cases "like_body u pid t1 t2 ul post") auto
    with True Cons.prems have e: "posts' = post' # rest" by simp
    have "kept post post'"
      using like_body_difference [OF b] like_body_post_id [OF b] by (simp add: kept_def)
    with e show ?thesis by (auto simp: nth_Cons kept_refl split: nat.splits)
  next
    case False
    obtain rest' ul'' r' where l: "like_loop u pid t1 t2 ul rest = (rest', ul'', r')"
      by (cases "like_loop u pid t1 t2 ul rest") auto
    with False Cons.prems have e: "posts' = post # rest'" by simp
    from Cons.IH [OF l] e show ?thesis
      by (auto simp: nth_Cons kept_refl split: nat.splits)
  qed
qed

lemma api_like_post_kept:
  "length (experience_posts (fst (api_like_post st cur pid t1 t2))) = length (experience_posts st)
   \<and> (\<forall>i < length (experience_posts st).
         kept (experience_posts st ! i) (experience_posts (fst (api_like_post st cur pid t1 t2)) ! i))"
proof (cases cur)
  case None
  then show ?thesis by (simp add: api_like_post_def kept_refl)
next
  case (Some u)
  obtain posts' ul' r where l: "like_loop u pid t1 t2 (user_likes st) (experience_posts st) = (posts', ul', r)"
    by (cases "like_loop u pid t1 t2 (user_likes st) (experience_posts st)") auto
  from like_loop_kept [OF l] Some l show ?thesis by (simp add: api_like_post_def)
qed

lemma run_like_requests_kept:
  "length (experience_posts (fst (run_like_requests st reqs))) = length (experience_posts st)
   \<and> (\<forall>i < length (experience_posts st).
         kept (experience_posts st ! i) (experience_posts (fst (run_like_requests st reqs)) ! i))"
proof (induction reqs arbitrary: st)
  case Nil
  then show ?case by (simp add: kept_refl)
next
  case (Cons req reqs)
  obtain cur pid t1 t2 where req: "req = (cur, pid, t1, t2)" by (cases req) auto
  let ?st1 = "fst (api_like_post st cur pid t1 t2)"
  have e: "fst (run_like_requests st (req # reqs)) = fst (run_like_requests ?st1 reqs)"
    by (cases "api_like_post st cur pid t1 t2"; cases "run_like_requests ?st1 reqs")
       (simp add: req)
  note a = api_like_post_kept [of st cur pid t1 t2]
  note b = Cons.IH [of ?st1]
  show ?case unfolding e using a b kept_trans by auto
qed


lemma rejected_only_when:
  assumes r: "snd (api_like_post st (Some u) pid t1 t2) = Inl (RateLimited AlreadyLikedToday)"
  shows "\<exists>p ts. find (\<lambda>p. post_id p = pid) (experience_posts st) = Some p
           \<and> u \<notin> set (liked_by p)
           \<and> map_of (likes_of (user_likes st) u) pid = Some ts \<and> dt_day t1 \<le> dt_day ts"
proof (cases "find (\<lambda>p. post_id p = pid) (experience_posts st)")
  case None
  from api_like_post_missing [OF None, of u t1 t2] r show ?thesis by simp
next
  case (Some p)
  show ?thesis
  proof (cases "u \<in> set (liked_by p)")
    case True
    from api_like_post_found [OF Some like_body_unlike [OF True, of pid t1 t2 "user_likes st"]] r
    show ?thesis by auto
  next
    case False
    from like_new_post [OF Some False refl, of t1 t2] r
    have "snd (can_like_post (user_likes st) u pid t1) = Some AlreadyLikedToday"
      by (cases "snd (can_like_post (user_likes st) u pid t1)") auto
    then obtain ts where "map_of (likes_of (user_likes st) u) pid = Some ts" "dt_day t1 \<le> dt_day ts"
      unfolding can_like_post_result by (auto split: if_splits)
    with Some False show ?thesis by blast
  qed
qed


lemma run_like_requests_append:
  "run_like_requests st (xs @ ys) =
     (case run_like_requests st xs of
        (st1, rs1) \<Rightarrow> (case run_like_requests st1 ys of (st2, rs2) \<Rightarrow> (st2, rs1 @ rs2)))"
proof (induction xs arbitrary: st)
  case Nil
  then show ?case by (cases "run_like_requests st ys") simp
next
  case (Cons x xs)
  obtain cur pid t1 t2 where x: "x = (cur, pid, t1, t2)" by (cases x) auto
  obtain st1 r where a: "api_like_post st cur pid t1 t2 = (st1, r)"
    by (cases "api_like_post st cur pid t1 t2") auto
  obtain st2 rs1 where b: "run_like_requests st1 xs = (st2, rs1)"
    by (cases "run_like_requests st1 xs") auto
  obtain st3 rs2 where c: "run_like_requests st2 ys = (st3, rs2)"
    by (cases "run_like_requests st2 ys") auto
  from Cons.IH [of st1] b c have "run_like_requests st1 (xs @ ys) = (st3, rs1 @ rs2)" by simp
  with x a b c show ?case by simp
qed

lemma run_append_fst:
  "fst (run_like_requests st (xs @ ys))
     = fst (run_like_requests (fst (run_like_requests st xs)) ys)"
  by (simp add: run_like_requests_append split: prod.splits)

lemma run_append_snd:
  "snd (run_like_requests st (xs @ ys))
     = snd (run_like_requests st xs) @ snd (run_like_requests (fst (run_like_requests st xs)) ys)"
  by (simp add: run_like_requests_append split: prod.splits)

lemma run_single:
  "run_like_requests st [(cur, pid, t1, t2)]
     = (fst (api_like_post st cur pid t1 t2), [snd (api_like_post st cur pid t1 t2)])"
  by (cases "api_like_post st cur pid t1 t2") simp

lemma like_body_records:
  assumes b: "like_body v pid' t1 t2 ul p = (p', ul', r)"
  shows "(\<forall>w. w \<noteq> v \<longrightarrow> likes_of ul' w = likes_of ul w)
       \<and> (\<forall>q. q \<noteq> pid' \<longrightarrow> map_of (likes_of ul' v) q = map_of (likes_of ul v) q)"
proof (cases "v \<in> set (liked_by p)")
  case True
  from b like_body_unlike [OF True, of pid' t1 t2 ul]
  have "ul' = (case ul v of None \<Rightarrow> ul | Some m \<Rightarrow> ul(v \<mapsto> AList.delete pid' m))" by simp
  then show ?thesis by (cases "ul v") (auto simp: likes_of_def)
next
  case False
  obtain ul1 e where c: "can_like_post ul v pid' t1 = (ul1, e)"
    by (cases "can_like_post ul v pid' t1") auto
  have l: "\<And>w. likes_of ul1 w = likes_of ul w"
    using likes_of_can_like_post [of ul v pid' t1] c by simp
  show ?thesis
  proof (cases e)
    case None
    from b like_body_like [OF False c [unfolded None], of t2]
    have "ul' = ul1(v \<mapsto> AList.update pid' t2 (likes_of ul1 v))" by simp
    then have "\<And>w. w \<noteq> v \<Longrightarrow> likes_of ul' w = likes_of ul1 w"
      and "likes_of ul' v = AList.update pid' t2 (likes_of ul1 v)"
      by (simp_all add: likes_of_def)
    with l show ?thesis by (simp add: update_conv')
  next
    case (Some msg)
    from b like_body_refused [OF False c [unfolded Some], of t2] have "ul' = ul1" by simp
    with l show ?thesis by simp
  qed
qed

lemma api_like_post_other_record:
  assumes "\<not> (cur = Some u \<and> pid' = pid)"
  shows "map_of (likes_of (user_likes (fst (api_like_post st cur pid' t1 t2))) u) pid
           = map_of (likes_of (user_likes st) u) pid"
proof (cases cur)
  case None
  then show ?thesis by (simp add: api_like_post_def)
next
  case (Some v)
  show ?thesis
  proof (cases "find (\<lambda>p. post_id p = pid') (experience_posts st)")
    case None
    from api_like_post_missing [OF None, of v t1 t2] Some show ?thesis by simp
  next
    case f: (Some p)
    obtain p' ul' r where b: "like_body v pid' t1 t2 (user_likes st) p = (p', ul', r)"
      by (cases "like_body v pid' t1 t2 (user_likes st) p") auto
    from api_like_post_found [OF f b] have
      "user_likes (fst (api_like_post st (Some v) pid' t1 t2)) = ul'" by auto
    moreover from like_body_records [OF b] assms Some
    have "map_of (likes_of ul' u) pid = map_of (likes_of (user_likes st) u) pid"
      by (cases "u = v") auto
    ultimately show ?thesis using Some by simp
  qed
qed

lemma api_like_post_other_post:
  assumes "pid' \<noteq> q"
  shows "find (\<lambda>p. post_id p = q) (experience_posts (fst (api_like_post st cur pid' t1 t2)))
           = find (\<lambda>p. post_id p = q) (experience_posts st)"
proof (cases cur)
  case None
  then show ?thesis by (simp add: api_like_post_def)
next
  case (Some v)
  show ?thesis
  proof (cases "find (\<lambda>p. post_id p = pid') (experience_posts st)")
    case None
    from api_like_post_missing [OF None, of v t1 t2] Some show ?thesis by simp
  next
    case f: (Some p)
    obtain p' ul' r where b: "like_body v pid' t1 t2 (user_likes st) p = (p', ul', r)"
      by (cases "like_body v pid' t1 t2 (user_likes st) p") auto
    from api_like_post_found [OF f b] obtain pre suf where
      ps: "experience_posts st = pre @ p # suf"
          "api_like_post st (Some v) pid' t1 t2
             = (st\<lparr>experience_posts := pre @ p' # suf, user_likes := ul'\<rparr>, r)"
      by blast
    have "post_id p = pid'" by (rule find_post_id [OF f])
    moreover have "post_id p' = pid'" using like_body_post_id [OF b] calculation by simp
    ultimately have "find (\<lambda>p. post_id p = q) (pre @ p' # suf)
                       = find (\<lambda>p. post_id p = q) (pre @ p # suf)"
      using assms by (intro find_post_other) auto
    with ps Some show ?thesis by simp
  qed
qed

lemma run_other_record:
  "\<forall>(c, p, a, b) \<in> set reqs. \<not> (c = Some u \<and> p = pid) \<Longrightarrow>
   map_of (likes_of (user_likes (fst (run_like_requests st reqs))) u) pid
     = map_of (likes_of (user_likes st) u) pid"
proof (induction reqs arbitrary: st)
  case Nil
  then show ?case by simp
next
  case (Cons x xs)
  obtain cur pid' t1 t2 where x: "x = (cur, pid', t1, t2)" by (cases x) auto
  let ?st1 = "fst (api_like_post st cur pid' t1 t2)"
  have e: "fst (run_like_requests st (x # xs)) = fst (run_like_requests ?st1 xs)"
    by (cases "api_like_post st cur pid' t1 t2"; cases "run_like_requests ?st1 xs")
       (simp add: x)
  from Cons.prems x have n: "\<not> (cur = Some u \<and> pid' = pid)"
    and r: "\<forall>(c, p, a, b) \<in> set xs. \<not> (c = Some u \<and> p = pid)" by auto
  from Cons.IH [OF r, of ?st1] api_like_post_other_record [OF n, of st t1 t2]
  show ?case unfolding e by simp
qed

lemma run_other_post:
  "\<forall>(c, p, a, b) \<in> set reqs. p \<noteq> q \<Longrightarrow>
   find (\<lambda>p. post_id p = q) (experience_posts (fst (run_like_requests st reqs)))
     = find (\<lambda>p. post_id p = q) (experience_posts st)"
proof (induction reqs arbitrary: st)
  case Nil
  then show ?case by simp
next
  case (Cons x xs)
  obtain cur pid' t1 t2 where x: "x = (cur, pid', t1, t2)" by (cases x) auto
  let ?st1 = "fst (api_like_post st cur pid' t1 t2)"
  have e: "fst (run_like_requests st (x # xs)) = fst (run_like_requests ?st1 xs)"
    by (cases "api_like_post st cur pid' t1 t2"; cases "run_like_requests ?st1 xs")
       (simp add: x)
  from Cons.prems x have n: "pid' \<noteq> q" and r: "\<forall>(c, p, a, b) \<in> set xs. p \<noteq> q" by auto
  from Cons.IH [OF r, of ?st1] api_like_post_other_post [OF n, of st cur t1 t2]
  show ?case unfolding e by simp
qed

lemma like_in_force_recorded:
  assumes split: "reqs = before @ (Some u, pid, t1, t2) # after"
      and liked: "snd (api_like_post (fst (run_like_requests st before)) (Some u) pid t1 t2)
                    = Inr (n, True)"
      and last: "\<forall>(c, p, a, b) \<in> set after. \<not> (c = Some u \<and> p = pid)"
  shows "map_of (likes_of (user_likes (fst (run_like_requests st reqs))) u) pid = Some t2"
proof -
  let ?sb = "fst (run_like_requests st before)"
  let ?s1 = "fst (api_like_post ?sb (Some u) pid t1 t2)"
  have a: "api_like_post ?sb (Some u) pid t1 t2 = (?s1, Inr (n, True))"
    using liked by (cases "api_like_post ?sb (Some u) pid t1 t2") auto
  from api_like_post_success [OF a]
  have "map_of (likes_of (user_likes ?s1) u) pid = Some t2" by (simp add: update_conv')
  moreover have "fst (run_like_requests st reqs) = fst (run_like_requests ?s1 after)"
  proof -
    have "reqs = before @ ([(Some u, pid, t1, t2)] @ after)" using split by simp
    then show ?thesis by (simp only: run_append_fst run_single fst_conv)
  qed
  ultimately show ?thesis by (simp add: run_other_record [OF last])
qed

lemma today_likes_count:
  assumes d: "distinct ps"
      and r: "\<forall>pid \<in> set ps. \<exists>ts. map_of m pid = Some ts \<and> dt_day now \<le> dt_day ts"
  shows "length ps \<le> today_likes m now"
proof -
  let ?f = "map (\<lambda>pid. (pid, the (map_of m pid))) ps"
  let ?g = "filter (\<lambda>(p, ts). dt_ge ts (today_start now)) m"
  have "map fst ?f = ps" by (induction ps) auto
  with d have df: "distinct ?f" by (metis distinct_map)
  have "set ?f \<subseteq> set ?g"
  proof
    fix x assume "x \<in> set ?f"
    then obtain pid where x: "x = (pid, the (map_of m pid))" "pid \<in> set ps" by auto
    with r obtain ts where ts: "map_of m pid = Some ts" "dt_day now \<le> dt_day ts" by blast
    from ts(1) have "(pid, ts) \<in> set m" by (rule map_of_SomeD)
    with ts x(1) show "x \<in> set ?g" by (simp add: dt_ge_today_start)
  qed
  then have "card (set ?f) \<le> card (set ?g)" by (simp add: card_mono)
  also have "\<dots> \<le> length ?g" by (rule card_length)
  finally have "card (set ?f) \<le> length ?g" .
  moreover have "card (set ?f) = length ?f" using df by (rule distinct_card)
  moreover have "length ?f = length ps" by simp
  ultimately show ?thesis by (simp only: today_likes_def)
qed


lemma consecutive_in_force:
  assumes ok: "\<forall>r \<in> set (snd (run_like_requests st (map (\<lambda>(pid, t1, t2). (Some u, pid, t1, t2)) ls))).
                 case r of Inl e \<Rightarrow> False | Inr (n, liked) \<Rightarrow> liked"
      and dist: "distinct (map fst ls)"
      and mem: "(pid, t1, t2) \<in> set ls"
  shows "\<exists>before n after.
           map (\<lambda>(pid, t1, t2). (Some u, pid, t1, t2)) ls = before @ (Some u, pid, t1, t2) # after
         \<and> snd (api_like_post (fst (run_like_requests st before)) (Some u) pid t1 t2) = Inr (n, True)
         \<and> (\<forall>(c, p, a, b) \<in> set after. \<not> (c = Some u \<and> p = pid))"
proof -
  let ?mk = "\<lambda>(pid, t1, t2). (Some u, pid, t1, t2)"
  from mem obtain xs ys where ls: "ls = xs @ (pid, t1, t2) # ys" by (auto dest: split_list)
  let ?b = "map ?mk xs" and ?a = "map ?mk ys"
  let ?r = "snd (api_like_post (fst (run_like_requests st ?b)) (Some u) pid t1 t2)"
  have m: "map ?mk ls = ?b @ ([(Some u, pid, t1, t2)] @ ?a)" using ls by simp
  have "?r \<in> set (snd (run_like_requests st (map ?mk ls)))"
    unfolding m run_append_snd run_single by simp
  with ok have "case ?r of Inl e \<Rightarrow> False | Inr (n, liked) \<Rightarrow> liked" by blast
  then obtain n where r: "?r = Inr (n, True)" by (cases ?r) (auto split: prod.splits)
  from dist ls have "pid \<notin> fst ` set ys" by auto
  then have aft: "\<forall>(c, p, a, b) \<in> set ?a. \<not> (c = Some u \<and> p = pid)" by force
  have m': "map ?mk ls = ?b @ (Some u, pid, t1, t2) # ?a" using ls by simp
  from m' r aft show ?thesis by blast
qed

lemma example_requests_run:
  "\<forall>r \<in> set (snd (run_like_requests example_state example_requests)).
      case r of Inl e \<Rightarrow> False | Inr (n, liked) \<Rightarrow> liked"
  unfolding example_requests_def by (rule example_likes_fresh)

lemma example_requests_posts:
  "(c, p, a, b) \<in> set example_requests \<Longrightarrow> \<exists>k. p = [k] \<and> 1 \<le> k \<and> k < 51"
  by (auto simp: example_requests_def example_likes_def)

lemma example_after_post_51:
  "find (\<lambda>p. post_id p = [51]) (experience_posts (fst (run_like_requests example_state example_requests)))
     = Some (example_post 51)"
proof -
  have "\<forall>(c, p, a, b) \<in> set example_requests. p \<noteq> [51]"
    using example_requests_posts by fastforce
  from run_other_post [OF this, of example_state] show ?thesis
    by (simp add: example_state_def find_example_post)
qed

lemma example_after_records:
  "likes_of (user_likes (fst (run_like_requests example_state example_requests))) (py ''ab12cd34'')
     = record_likes [] example_likes"
proof -
  obtain st' rs where r: "run_like_requests example_state
      (map (\<lambda>(pid, t1, t2). (Some (py ''ab12cd34''), pid, t1, t2)) example_likes) = (st', rs)"
    by (cases "run_like_requests example_state
      (map (\<lambda>(pid, t1, t2). (Some (py ''ab12cd34''), pid, t1, t2)) example_likes)") auto
  with example_likes_fresh
  have "\<forall>r \<in> set rs. case r of Inl e \<Rightarrow> False | Inr (n, liked) \<Rightarrow> liked" by simp
  from run_likes_success [OF r this] r show ?thesis
    by (simp add: example_requests_def example_state_def likes_of_def)
qed


lemma api_like_post_liked_post:
  assumes a: "snd (api_like_post st (Some u) pid t1 t2) = Inr (n, True)"
      and f: "find (\<lambda>p. post_id p = pid) (experience_posts st) = Some p"
  shows "n = likes p + 1
       \<and> find (\<lambda>p. post_id p = pid) (experience_posts (fst (api_like_post st (Some u) pid t1 t2)))
           = Some (p\<lparr>likes := likes p + 1, liked_by := liked_by p @ [u]\<rparr>)"
proof -
  obtain p' ul' r where b: "like_body u pid t1 t2 (user_likes st) p = (p', ul', r)"
    by (cases "like_body u pid t1 t2 (user_likes st) p") auto
  from api_like_post_found [OF f b] obtain pre suf where
    ps: "experience_posts st = pre @ p # suf" "\<forall>q \<in> set pre. post_id q \<noteq> pid"
        "api_like_post st (Some u) pid t1 t2
               = (st\<lparr>experience_posts := pre @ p' # suf, user_likes := ul'\<rparr>, r)"
    by blast
  with a have r: "r = Inr (n, True)" by simp
  from like_body_liked [OF b [unfolded r]]
  have p': "p' = p\<lparr>likes := likes p + 1, liked_by := liked_by p @ [u]\<rparr>" "n = likes p + 1"
    by simp_all
  have "post_id p' = pid" using find_post_id [OF f] p' by simp
  from find_post_split [OF ps(2) this] ps(3) p' show ?thesis by simp
qed

lemma api_like_post_unliked:
  assumes f: "find (\<lambda>p. post_id p = pid) (experience_posts st) = Some p"
      and m: "u \<in> set (liked_by p)"
  shows "snd (api_like_post st (Some u) pid t1 t2) = Inr (max 0 (likes p - 1), False)
       \<and> likes_of (user_likes (fst (api_like_post st (Some u) pid t1 t2))) u
           = AList.delete pid (likes_of (user_likes st) u)"
proof -
  from api_like_post_found [OF f like_body_unlike [OF m, of pid t1 t2 "user_likes st"]]
  obtain pre suf where
    "api_like_post st (Some u) pid t1 t2
       = (st\<lparr>experience_posts := pre @ p\<lparr>liked_by := remove1 u (liked_by p),
                   likes := max 0 (likes p - 1)\<rparr> # suf,
              user_likes := (case user_likes st u of None \<Rightarrow> user_likes st
                 | Some m \<Rightarrow> (user_likes st)(u \<mapsto> AList.delete pid m))\<rparr>,
          Inr (max 0 (likes p - 1), False))"
    by blast
  then show ?thesis by (cases "user_likes st u") (auto simp: likes_of_def)
qed

lemma length_update_le: "length (AList.update k v m) \<le> Suc (length m)"
  by (induction m) auto

lemma length_record_likes: "length (record_likes m ls) \<le> length m + length ls"
proof (induction ls arbitrary: m)
  case Nil
  then show ?case by simp
next
  case (Cons l ls)
  obtain p a b where l: "l = (p, a, b)" by (cases l) auto
  from Cons.IH [of "AList.update p b m"] length_update_le [of p b m] l show ?case by simp
qed

lemma length_delete_less:
  "map_of m k = Some v \<Longrightarrow> length (AList.delete k m) < length m"
proof -
  assume "map_of m k = Some v"
  then have "(k, v) \<in> set m" by (rule map_of_SomeD)
  then show ?thesis unfolding AList.delete_eq by (intro length_filter_less [of "(k, v)"]) auto
qed

lemma today_likes_le: "today_likes m now \<le> length m"
  by (simp add: today_likes_def)

lemma example_requests_split:
  "example_requests =
     map (\<lambda>(pid, t1, t2). (Some (py ''ab12cd34''), pid, t1, t2))
       (map (\<lambda>n. ([n], DateTime 100 n, DateTime 100 (n + 1))) [1..<50])
     @ [(Some (py ''ab12cd34''), [50], DateTime 100 50, DateTime 100 51)]"
proof -
  have "(51::nat) = Suc 50" by simp
  then have "[1..<51] = [1..<Suc 50]" by (simp only:)
  also have "\<dots> = [1..<50] @ [50::nat]" by (rule upt_Suc_append) simp
  finally show ?thesis by (simp add: example_requests_def example_likes_def)
qed

section \<open>Properties of the offer, favourite and delete routes\<close>

lemma like_offer_loop_found:
  "find (\<lambda>x. offer_id x = oid) offers = Some ofr \<Longrightarrow>
     snd (like_offer_loop oid offers) = Inr (offer_likes ofr + 1)
   \<and> find (\<lambda>x. offer_id x = oid) (fst (like_offer_loop oid offers))
       = Some (ofr\<lparr>offer_likes := offer_likes ofr + 1\<rparr>)"
  by (induction offers) (auto split: prod.splits if_splits)

lemma like_offer_calls_found:
  "find (\<lambda>x. offer_id x = oid) offers = Some ofr \<Longrightarrow>
   find (\<lambda>x. offer_id x = oid) (like_offer_calls offers us oid)
     = Some (ofr\<lparr>offer_likes := offer_likes ofr + int (length us)\<rparr>)"
proof (induction us arbitrary: offers ofr)
  case Nil
  then show ?case by simp
next
  case (Cons u us)
  from like_offer_loop_found [OF Cons.prems]
  have "find (\<lambda>x. offer_id x = oid) (fst (api_like_offer offers (Some u) oid))
       = Some (ofr\<lparr>offer_likes := offer_likes ofr + 1\<rparr>)"
    by (simp add: api_like_offer_def)
  from Cons.IH [OF this] show ?case by (simp add: add.assoc)
qed


lemma delete_loop_find:
  "delete_loop uid pid posts =
     (case find (\<lambda>p. post_id p = pid) posts of
        None \<Rightarrow> Inl PostNotFound
      | Some p \<Rightarrow> if author_id p \<noteq> uid then Inl NotOwner else Inr (remove1 p posts))"
proof (induction posts)
  case Nil
  then show ?case by simp
next
  case (Cons a posts)
  show ?case
  proof (cases "post_id a = pid")
    case True
    then show ?thesis by simp
  next
    case False
    show ?thesis
    proof (cases "find (\<lambda>p. post_id p = pid) posts")
      case None
      with False Cons show ?thesis by simp
    next
      case (Some p)
      then have "post_id p = pid" by (rule find_post_id)
      with False have "a \<noteq> p" by auto
      with False Some Cons show ?thesis by simp
    qed
  qed
qed

lemma removed_post_gone:
  assumes "distinct (map post_id posts)" and "find (\<lambda>p. post_id p = pid) posts = Some p"
  shows "pid \<notin> post_id ` set (remove1 p posts)"
  using assms
proof (induction posts)
  case Nil
  then show ?case by simp
next
  case (Cons a posts)
  show ?case
  proof (cases "post_id a = pid")
    case True
    with Cons.prems show ?thesis by auto
  next
    case False
    with Cons.prems have f: "find (\<lambda>p. post_id p = pid) posts = Some p" by simp
    then have "post_id p = pid" by (rule find_post_id)
    with False have "a \<noteq> p" by auto
    with Cons.IH [OF _ f] Cons.prems(1) False show ?thesis by simp
  qed
qed

lemma purge_favorites_keys: "map fst (purge_favorites pid uf) = map fst uf"
  by (induction uf) (auto simp: purge_favorites_def)

lemma purge_one:
  "distinct favs \<Longrightarrow>
     pid \<notin> set (if pid \<in> set favs then remove1 pid favs else favs)
   \<and> distinct (if pid \<in> set favs then remove1 pid favs else favs)"
  by (simp add: set_remove1_eq)

lemma purge_favorites_clean:
  assumes "\<forall>(u, favs) \<in> set uf. distinct favs"
  shows "\<forall>(u, favs) \<in> set (purge_favorites pid uf). pid \<notin> set favs \<and> distinct favs"
proof (clarify)
  fix u favs assume "(u, favs) \<in> set (purge_favorites pid uf)"
  then obtain favs0 where m: "(u, favs0) \<in> set uf"
    and e: "favs = (if pid \<in> set favs0 then remove1 pid favs0 else favs0)"
    by (auto simp: purge_favorites_def)
  from m assms have "distinct favs0" by auto
  from purge_one [OF this, of pid] e show "pid \<notin> set favs \<and> distinct favs" by simp
qed

lemma purge_favorites_other:
  "(u, favs) \<in> set (purge_favorites pid uf) \<Longrightarrow> q \<noteq> pid \<Longrightarrow>
   \<exists>favs0. (u, favs0) \<in> set uf \<and> (q \<in> set favs \<longleftrightarrow> q \<in> set favs0)"
  by (induction uf) (auto simp: purge_favorites_def)

lemma toggle_keeps_distinct:
  assumes "\<forall>(u, favs) \<in> set (user_favorites st). distinct favs"
  shows "\<forall>(u, favs) \<in> set (user_favorites (fst (api_toggle_favorite st cur pid))). distinct favs"
proof (cases cur)
  case None
  with assms show ?thesis by (simp add: api_toggle_favorite_def)
next
  case (Some uid)
  let ?uf1 = "case map_of (user_favorites st) uid of
                None \<Rightarrow> AList.update uid [] (user_favorites st)
              | Some favs \<Rightarrow> user_favorites st"
  have d1: "\<forall>(u, favs) \<in> set ?uf1. distinct favs"
    using assms set_update_subset [of uid "[]" "user_favorites st"]
    by (auto split: option.splits)
  have d2: "distinct (favorites_of ?uf1 uid)"
  proof (cases "map_of ?uf1 uid")
    case None
    then show ?thesis by (simp add: favorites_of_def)
  next
    case (Some favs)
    then have "(uid, favs) \<in> set ?uf1" by (rule map_of_SomeD)
    with d1 Some show ?thesis by (auto simp: favorites_of_def)
  qed
  have "\<forall>(u, favs) \<in> set (AList.update uid (remove1 pid (favorites_of ?uf1 uid)) ?uf1). distinct favs"
    using d1 d2 set_update_subset [of uid "remove1 pid (favorites_of ?uf1 uid)" ?uf1] by auto
  moreover
  have "pid \<notin> set (favorites_of ?uf1 uid) \<Longrightarrow>
        \<forall>(u, favs) \<in> set (AList.update uid (favorites_of ?uf1 uid @ [pid]) ?uf1). distinct favs"
    using d1 d2 set_update_subset [of uid "favorites_of ?uf1 uid @ [pid]" ?uf1] by auto
  ultimately show ?thesis using Some
    by (simp add: api_toggle_favorite_def Let_def)
qed

lemma api_delete_post_run:
  "api_delete_post st cur pid =
     (case cur of
        None \<Rightarrow> (st, Inl LoginRequired)
      | Some uid \<Rightarrow>
          (case find (\<lambda>p. post_id p = pid) (experience_posts st) of
             None \<Rightarrow> (st, Inl PostNotFound)
           | Some p \<Rightarrow>
               if author_id p \<noteq> uid then (st, Inl NotOwner)
               else (st\<lparr>experience_posts := remove1 p (experience_posts st),
                        user_favorites := purge_favorites pid (user_favorites st)\<rparr>,
                     Inr ())))"
  by (simp add: api_delete_post_def delete_loop_find split: option.splits)

section \<open>Properties of company votes and awards\<close>

lemma can_vote_result:
  "snd (can_vote_for_company cv u c now)
     = (\<not> (\<exists>ts. votes_on cv c u = Some ts \<and> dt_day now \<le> dt_day ts))"
  by (cases "cv c")
     (auto simp: can_vote_for_company_def votes_on_def Let_def dt_ge_today_start
           split: option.splits)

lemma can_vote_votes_on:
  "votes_on (fst (can_vote_for_company cv u c now)) c' = votes_on cv c'"
  by (cases "cv c") (auto simp: can_vote_for_company_def votes_on_def Let_def)

lemma find_company_id:
  "find (\<lambda>k. company_id k = c) cs = Some k \<Longrightarrow> company_id k = c"
  by (induction cs) (auto split: if_splits)

lemma vote_loop_none:
  "find (\<lambda>k. company_id k = c) cs = None \<Longrightarrow> vote_loop c cs = None"
  by (induction cs) (auto split: if_splits)

lemma vote_loop_some:
  "find (\<lambda>k. company_id k = c) cs = Some k \<Longrightarrow>
   \<exists>cs'. vote_loop c cs = Some (cs', votes k + 1)
        \<and> find (\<lambda>k. company_id k = c) cs' = Some (k\<lparr>votes := votes k + 1\<rparr>)
        \<and> (\<forall>c'. c' \<noteq> c \<longrightarrow> find (\<lambda>k. company_id k = c') cs' = find (\<lambda>k. company_id k = c') cs)"
proof (induction cs)
  case Nil
  then show ?case by simp
next
  case (Cons a cs)
  show ?case
  proof (cases "company_id a = c")
    case True
    with Cons.prems show ?thesis by auto
  next
    case False
    with Cons.prems have "find (\<lambda>k. company_id k = c) cs = Some k" by simp
    from Cons.IH [OF this] obtain cs' where
      "vote_loop c cs = Some (cs', votes k + 1)"
      "find (\<lambda>k. company_id k = c) cs' = Some (k\<lparr>votes := votes k + 1\<rparr>)"
      "\<forall>c'. c' \<noteq> c \<longrightarrow> find (\<lambda>k. company_id k = c') cs' = find (\<lambda>k. company_id k = c') cs"
      by blast
    with False have "vote_loop c (a # cs) = Some (a # cs', votes k + 1)
        \<and> find (\<lambda>k. company_id k = c) (a # cs') = Some (k\<lparr>votes := votes k + 1\<rparr>)
        \<and> (\<forall>c'. c' \<noteq> c \<longrightarrow> find (\<lambda>k. company_id k = c') (a # cs')
                               = find (\<lambda>k. company_id k = c') (a # cs))"
      by simp
    then show ?thesis by blast
  qed
qed

lemma vote_refused:
  assumes "votes_on (company_votes vs) c u = Some ts" and "dt_day t1 \<le> dt_day ts"
  shows "snd (api_vote_company vs (Some u) c t1 t2) = Inl (RateLimited AlreadyVotedToday)
       \<and> dream_companies (fst (api_vote_company vs (Some u) c t1 t2)) = dream_companies vs
       \<and> user_achievements (fst (api_vote_company vs (Some u) c t1 t2)) = user_achievements vs"
proof -
  obtain cv1 b where cv: "can_vote_for_company (company_votes vs) u c t1 = (cv1, b)"
    by (cases "can_vote_for_company (company_votes vs) u c t1") auto
  have "\<not> b" using can_vote_result [of "company_votes vs" u c t1] cv assms by auto
  with cv show ?thesis by (simp add: api_vote_company_def)
qed

lemma vote_accepted:
  assumes f: "find (\<lambda>k. company_id k = c) (dream_companies vs) = Some k"
      and n: "\<forall>ts. votes_on (company_votes vs) c u = Some ts \<longrightarrow> dt_day ts < dt_day t1"
  shows "snd (api_vote_company vs (Some u) c t1 t2) = Inr (votes k + 1)
       \<and> votes_on (company_votes (fst (api_vote_company vs (Some u) c t1 t2))) c u = Some t2
       \<and> (\<forall>c'. c' \<noteq> c \<longrightarrow>
            votes_on (company_votes (fst (api_vote_company vs (Some u) c t1 t2))) c'
              = votes_on (company_votes vs) c'
          \<and> find (\<lambda>k. company_id k = c') (dream_companies (fst (api_vote_company vs (Some u) c t1 t2)))
              = find (\<lambda>k. company_id k = c') (dream_companies vs))"
proof -
  obtain cv1 b where cv: "can_vote_for_company (company_votes vs) u c t1 = (cv1, b)"
    by (cases "can_vote_for_company (company_votes vs) u c t1") auto
  have b: "b" using can_vote_result [of "company_votes vs" u c t1] cv n by force
  have v: "\<And>c'. votes_on cv1 c' = votes_on (company_votes vs) c'"
    using can_vote_votes_on [of "company_votes vs" u c t1] cv by simp
  from vote_loop_some [OF f] obtain cs' where
    l: "vote_loop c (dream_companies vs) = Some (cs', votes k + 1)"
       "\<forall>c'. c' \<noteq> c \<longrightarrow> find (\<lambda>k. company_id k = c') cs'
                              = find (\<lambda>k. company_id k = c') (dream_companies vs)"
    by blast
  have r: "api_vote_company vs (Some u) c t1 t2 =
     (vs\<lparr>dream_companies := cs',
         company_votes := cv1(c \<mapsto> (votes_on cv1 c)(u \<mapsto> t2)),
         user_achievements := award_user_points (user_achievements vs) u 5 ''vote''\<rparr>,
      Inr (votes k + 1))"
    using cv b l(1) by (simp add: api_vote_company_def)
  have "\<And>c'. c' \<noteq> c \<Longrightarrow> votes_on (cv1(c \<mapsto> (votes_on cv1 c)(u \<mapsto> t2))) c' = votes_on (company_votes vs) c'"
    using v by (simp add: votes_on_def)
  moreover have "votes_on (cv1(c \<mapsto> (votes_on cv1 c)(u \<mapsto> t2))) c u = Some t2"
    by (simp add: votes_on_def)
  ultimately show ?thesis using r l(2) by simp
qed

lemma vote_succeeded:
  assumes "snd (api_vote_company vs (Some u) c t1 t2) = Inr n"
  shows "\<exists>k. find (\<lambda>k. company_id k = c) (dream_companies vs) = Some k
       \<and> (\<forall>ts. votes_on (company_votes vs) c u = Some ts \<longrightarrow> dt_day ts < dt_day t1)"
proof -
  obtain cv1 b where cv: "can_vote_for_company (company_votes vs) u c t1 = (cv1, b)"
    by (cases "can_vote_for_company (company_votes vs) u c t1") auto
  have b: "b" using assms cv by (cases b) (auto simp: api_vote_company_def)
  then have n: "\<forall>ts. votes_on (company_votes vs) c u = Some ts \<longrightarrow> dt_day ts < dt_day t1"
    using can_vote_result [of "company_votes vs" u c t1] cv by force
  have "find (\<lambda>k. company_id k = c) (dream_companies vs) \<noteq> None"
  proof
    assume "find (\<lambda>k. company_id k = c) (dream_companies vs) = None"
    from vote_loop_none [OF this] assms cv b show False by (simp add: api_vote_company_def)
  qed
  with n show ?thesis by auto
qed


lemma badge_points_simps:
  "badge_points ''first_vote'' = 10" "badge_points ''voter_10'' = 50"
  "badge_points ''voter_50'' = 200" "badge_points ''top_contributor'' = 0"
  by (simp_all add: badge_points_def ACHIEVEMENT_BADGES_def)

lemma filter_member:
  "filter (\<lambda>b. b \<noteq> t) bs = cs \<Longrightarrow> b \<noteq> t \<Longrightarrow> b \<in> set bs \<longleftrightarrow> b \<in> set cs"
  by auto

lemma small_total:
  assumes "p < 44" and "k \<le> 10"
  shows "int k * p + 60 < 500"
proof -
  have "int k * p \<le> int k * 43" using assms(1) by (intro mult_left_mono) simp_all
  also have "\<dots> \<le> 430" using assms(2) by simp
  finally show ?thesis by simp
qed

lemma votes_counted_new: "votes_counted p 0 new_achievement"
  by (simp add: votes_counted_def new_achievement_def vote_badges_def vote_bonus_def)

lemma votes_counted_step:
  assumes "votes_counted p k a"
  shows "votes_counted p (Suc k) (award_record a p ''vote'')"
proof -
  from assms have vc: "votes_cast a = int k"
    and fb: "filter (\<lambda>b. b \<noteq> ''top_contributor'') (badges a) = vote_badges k"
    and d: "distinct (badges a)"
    and pt: "points a = int k * p + vote_bonus k"
    and tp: "p < 44 \<and> k \<le> 10 \<longrightarrow> ''top_contributor'' \<notin> set (badges a)"
    by (simp_all add: votes_counted_def)
  have m1: "''first_vote'' \<in> set (badges a) \<longleftrightarrow> ''first_vote'' \<in> set (vote_badges k)"
    by (rule filter_member [OF fb]) simp
  have m2: "''voter_10'' \<in> set (badges a) \<longleftrightarrow> ''voter_10'' \<in> set (vote_badges k)"
    by (rule filter_member [OF fb]) simp
  have m3: "''voter_50'' \<in> set (badges a) \<longleftrightarrow> ''voter_50'' \<in> set (vote_badges k)"
    by (rule filter_member [OF fb]) simp
  define a1 where "a1 = a\<lparr>points := points a + p, votes_cast := votes_cast a + 1\<rparr>"
  define a2 where "a2 =
     (if k = 0 then grant_badge ''first_vote'' a1
      else if k = 9 then grant_badge ''voter_10'' a1
      else if k = 49 then grant_badge ''voter_50'' a1
      else a1)"
  have split: "award_record a p ''vote'' =
     (if points a2 \<ge> 500 \<and> ''top_contributor'' \<notin> set (badges a2)
      then a2\<lparr>badges := badges a2 @ [''top_contributor'']\<rparr> else a2)"
    using vc m1 m2 m3
    by (simp add: award_record_def Let_def a2_def a1_def vote_badges_def)
  have vc2: "votes_cast a2 = int (Suc k)"
    by (simp add: a2_def a1_def grant_badge_def vc)
  have fb2: "filter (\<lambda>b. b \<noteq> ''top_contributor'') (badges a2) = vote_badges (Suc k)"
    using fb by (auto simp: a2_def a1_def grant_badge_def vote_badges_def)
  have d2: "distinct (badges a2)"
    using d m1 m2 m3 by (auto simp: a2_def a1_def grant_badge_def vote_badges_def)
  have pt2: "points a2 = int (Suc k) * p + vote_bonus (Suc k)"
    using pt by (auto simp: a2_def a1_def grant_badge_def vote_bonus_def badge_points_simps
                    algebra_simps)
  have tp2: "p < 44 \<and> Suc k \<le> 10 \<longrightarrow> ''top_contributor'' \<notin> set (badges a2)"
    using tp by (auto simp: a2_def a1_def grant_badge_def)
  have low: "p < 44 \<and> Suc k \<le> 10 \<longrightarrow> points a2 < 500"
  proof
    assume h: "p < 44 \<and> Suc k \<le> 10"
    then have "int (Suc k) * p + 60 < 500" by (intro small_total) simp_all
    moreover have "vote_bonus (Suc k) \<le> 60" using h by (simp add: vote_bonus_def)
    ultimately show "points a2 < 500" using pt2 by linarith
  qed
  show ?thesis
  proof (cases "points a2 \<ge> 500 \<and> ''top_contributor'' \<notin> set (badges a2)")
    case True
    with split have r: "award_record a p ''vote'' = a2\<lparr>badges := badges a2 @ [''top_contributor'']\<rparr>"
      by simp
    from True low have "\<not> (p < 44 \<and> Suc k \<le> 10)" by auto
    with r vc2 fb2 d2 pt2 True show ?thesis
      by (simp add: votes_counted_def)
  next
    case False
    with split have "award_record a p ''vote'' = a2" by simp
    with vc2 fb2 d2 pt2 tp2 show ?thesis by (simp add: votes_counted_def)
  qed
qed

lemma award_votes_Suc:
  "award_votes ua u p (Suc n) u
     = Some (award_record (achievement_of (award_votes ua u p n) u) p ''vote'')"
  by (simp add: award_user_points_def achievement_of_def)

lemma award_votes_counted:
  "ua u = None \<Longrightarrow> votes_counted p n (achievement_of (award_votes ua u p n) u)"
proof (induction n)
  case 0
  then show ?case by (simp add: achievement_of_def votes_counted_new)
next
  case (Suc n)
  from Suc.prems have "votes_counted p n (achievement_of (award_votes ua u p n) u)"
    by (rule Suc.IH)
  from votes_counted_step [OF this]
  show ?case unfolding award_votes_Suc achievement_of_def by simp
qed

lemma award_votes_result:
  assumes "ua u = None"
  shows "\<exists>a. award_votes ua u p (Suc n) u = Some a \<and> votes_counted p (Suc n) a"
proof -
  from award_votes_counted [of ua u p "Suc n", OF assms] show ?thesis
    unfolding award_votes_Suc achievement_of_def by simp
qed

lemma bonus_sum:
  "sum_list (map badge_points bs)
     = sum_list (map badge_points (filter (\<lambda>b. b \<noteq> ''top_contributor'') bs))"
  by (induction bs) (auto simp: badge_points_simps)

lemma votes_counted_sum:
  "votes_counted p k a \<Longrightarrow> points a = int k * p + sum_list (map badge_points (badges a))"
  unfolding bonus_sum [of "badges a"]
  by (auto simp: votes_counted_def vote_badges_def vote_bonus_def badge_points_simps)

lemma vote_badges_general:
  assumes "ua u = None"
  shows "(\<exists>a. award_votes ua u p 10 u = Some a
            \<and> ''first_vote'' \<in> set (badges a) \<and> ''voter_10'' \<in> set (badges a)
            \<and> ''voter_50'' \<notin> set (badges a)
            \<and> (p < 44 \<longrightarrow> badges a = [''first_vote'', ''voter_10'']))
       \<and> (\<exists>a. award_votes ua u p 50 u = Some a
            \<and> ''first_vote'' \<in> set (badges a) \<and> ''voter_10'' \<in> set (badges a)
            \<and> ''voter_50'' \<in> set (badges a))
       \<and> (\<exists>a. award_votes ua u p (Suc n) u = Some a
            \<and> distinct (badges a) \<and> votes_cast a = int (Suc n)
            \<and> points a = int (Suc n) * p + sum_list (map badge_points (badges a)))"
proof -
  have ten: "\<exists>a. award_votes ua u p 10 u = Some a
            \<and> ''first_vote'' \<in> set (badges a) \<and> ''voter_10'' \<in> set (badges a)
            \<and> ''voter_50'' \<notin> set (badges a)
            \<and> (p < 44 \<longrightarrow> badges a = [''first_vote'', ''voter_10''])"
  proof -
    from award_votes_result [of ua u p 9, OF assms] obtain a where
      a: "award_votes ua u p 10 u = Some a" "votes_counted p 10 a"
      by (auto simp: eval_nat_numeral)
    from a(2) have fb: "filter (\<lambda>b. b \<noteq> ''top_contributor'') (badges a) = [''first_vote'', ''voter_10'']"
      and tp: "p < 44 \<longrightarrow> ''top_contributor'' \<notin> set (badges a)"
      by (simp_all add: votes_counted_def vote_badges_def)
    have "''first_vote'' \<in> set (badges a)" using filter_member [OF fb, of "''first_vote''"] by simp
    moreover have "''voter_10'' \<in> set (badges a)" using filter_member [OF fb, of "''voter_10''"] by simp
    moreover have "''voter_50'' \<notin> set (badges a)" using filter_member [OF fb, of "''voter_50''"] by simp
    moreover have "p < 44 \<longrightarrow> badges a = [''first_vote'', ''voter_10'']"
    proof
      assume "p < 44"
      with tp have "filter (\<lambda>b. b \<noteq> ''top_contributor'') (badges a) = badges a"
        by (auto simp: filter_id_conv)
      with fb show "badges a = [''first_vote'', ''voter_10'']" by simp
    qed
    ultimately show ?thesis using a(1) by blast
  qed
  have fifty: "\<exists>a. award_votes ua u p 50 u = Some a
            \<and> ''first_vote'' \<in> set (badges a) \<and> ''voter_10'' \<in> set (badges a)
            \<and> ''voter_50'' \<in> set (badges a)"
  proof -
    from award_votes_result [of ua u p 49, OF assms] obtain a where
      a: "award_votes ua u p 50 u = Some a" "votes_counted p 50 a"
      by (auto simp: eval_nat_numeral)
    from a(2) have fb: "filter (\<lambda>b. b \<noteq> ''top_contributor'') (badges a)
                          = [''first_vote'', ''voter_10'', ''voter_50'']"
      by (simp add: votes_counted_def vote_badges_def)
    have "''first_vote'' \<in> set (badges a)" using filter_member [OF fb, of "''first_vote''"] by simp
    moreover have "''voter_10'' \<in> set (badges a)" using filter_member [OF fb, of "''voter_10''"] by simp
    moreover have "''voter_50'' \<in> set (badges a)" using filter_member [OF fb, of "''voter_50''"] by simp
    ultimately show ?thesis using a(1) by blast
  qed
  have any: "\<exists>a. award_votes ua u p (Suc n) u = Some a
            \<and> distinct (badges a) \<and> votes_cast a = int (Suc n)
            \<and> points a = int (Suc n) * p + sum_list (map badge_points (badges a))"
  proof -
    from award_votes_result [of ua u p n, OF assms] obtain a where
      a: "award_votes ua u p (Suc n) u = Some a" "votes_counted p (Suc n) a" by blast
    from a(2) votes_counted_sum [OF a(2)] a(1) show ?thesis
      by (auto simp: votes_counted_def)
  qed
  from ten fifty any show ?thesis by blast
qed

section \<open>Claims on moderation and messaging\<close>

text \<open>
  C6. The moderation check rejects a text (first component \<open>False\<close>) exactly when some
  word of \<open>PROHIBITED_WORDS\<close> occurs in it as a contiguous, code point for code point
  (hence case-sensitive) substring. On rejection the message names the first word of the
  list, in list order, that occurs in the text; on acceptance the message is empty. The
  check is a function of the text alone: it takes no state and returns none.
\<close>

theorem check_content_moderation_first_match:
  "(\<not> fst (check_content_moderation text)
      \<longleftrightarrow> (\<exists>w \<in> set PROHIBITED_WORDS. \<exists>ps ss. text = ps @ w @ ss))
   \<and> (\<not> fst (check_content_moderation text) \<longrightarrow>
        (\<exists>i < length PROHIBITED_WORDS.
            sublist (PROHIBITED_WORDS ! i) text
          \<and> (\<forall>j < i. \<not> sublist (PROHIBITED_WORDS ! j) text)
          \<and> snd (check_content_moderation text)
              = py ''Content contains prohibited word: '' @ PROHIBITED_WORDS ! i))
   \<and> (fst (check_content_moderation text) \<longrightarrow> snd (check_content_moderation text) = [])"
proof -
  have a: "\<not> fst (check_content_moderation text)
      \<longleftrightarrow> (\<exists>w \<in> set PROHIBITED_WORDS. \<exists>ps ss. text = ps @ w @ ss)"
    unfolding check_content_moderation_def
    by (simp add: moderation_loop_accepts sublist_def)
  have b: "\<not> fst (check_content_moderation text) \<longrightarrow>
        (\<exists>i < length PROHIBITED_WORDS.
            sublist (PROHIBITED_WORDS ! i) text
          \<and> (\<forall>j < i. \<not> sublist (PROHIBITED_WORDS ! j) text)
          \<and> snd (check_content_moderation text)
              = py ''Content contains prohibited word: '' @ PROHIBITED_WORDS ! i)"
    unfolding check_content_moderation_def
    using moderation_loop_first [of PROHIBITED_WORDS "text"] by blast
  have c: "fst (check_content_moderation text) \<longrightarrow> snd (check_content_moderation text) = []"
    unfolding check_content_moderation_def
    using moderation_loop_accept_msg [of PROHIBITED_WORDS "text"] by blast
  from a b c show ?thesis by blast
qed

text \<open>
  The scenario of the specification: a text of seven characters whose fourth and fifth
  are the fifth word of the list (code points 20195, 20889), and which contains no
  earlier word.
\<close>

theorem check_content_moderation_first_match_witness:
  "\<not> fst (check_content_moderation [35831, 25214, 20154, 20195, 20889, 35770, 25991])
   \<and> (\<exists>i < length PROHIBITED_WORDS.
          sublist (PROHIBITED_WORDS ! i) [35831, 25214, 20154, 20195, 20889, 35770, 25991]
        \<and> (\<forall>j < i. \<not> sublist (PROHIBITED_WORDS ! j)
                        [35831, 25214, 20154, 20195, 20889, 35770, 25991])
        \<and> snd (check_content_moderation [35831, 25214, 20154, 20195, 20889, 35770, 25991])
            = py ''Content contains prohibited word: '' @ PROHIBITED_WORDS ! i)"
proof -
  have "[35831, 25214, 20154, 20195, 20889, 35770, 25991]
          = [35831, 25214, 20154] @ [20195, 20889] @ [35770, 25991::nat]"
    by simp
  moreover have "[20195, 20889] \<in> set PROHIBITED_WORDS"
    by (simp add: PROHIBITED_WORDS_def)
  ultimately have "\<exists>w \<in> set PROHIBITED_WORDS. \<exists>ps ss.
      [35831, 25214, 20154, 20195, 20889, 35770, 25991] = ps @ w @ ss"
    by blast
  then show ?thesis
    using check_content_moderation_first_match
            [of "[35831, 25214, 20154, 20195, 20889, 35770, 25991]"]
    by blast
qed

text \<open>
  C7. The conversation id of two users is their two ids sorted, in the order Python
  gives strings, and joined with an underscore: the smaller id, an underscore, the larger
  id. So it does not depend on the order in which the two are given.
\<close>

theorem get_conversation_id_sorted_join:
  "get_conversation_id a b = get_conversation_id b a
   \<and> get_conversation_id a b = min a b @ py ''_'' @ max a b"
proof -
  have "sort [a, b] = [min a b, max a b]"
    by (cases "a \<le> b"; cases "b \<le> a") (auto simp: min_def max_def)
  moreover have "sort [b, a] = [min a b, max a b]"
    by (cases "a \<le> b"; cases "b \<le> a") (auto simp: min_def max_def)
  ultimately show ?thesis by (simp add: get_conversation_id_def)
qed


text \<open>Two ids given in both orders.\<close>

theorem get_conversation_id_sorted_join_witness:
  "get_conversation_id (py ''b2c3d4e5'') (py ''a1f0'') = py ''a1f0_b2c3d4e5''
   \<and> get_conversation_id (py ''a1f0'') (py ''b2c3d4e5'') = py ''a1f0_b2c3d4e5''"
proof -
  have m: "min (py ''b2c3d4e5'') (py ''a1f0'') = py ''a1f0''"
          "max (py ''b2c3d4e5'') (py ''a1f0'') = py ''b2c3d4e5''"
    by (simp_all add: py_def min_def max_def)
  have v: "py ''a1f0'' @ py ''_'' @ py ''b2c3d4e5'' = py ''a1f0_b2c3d4e5''"
    by (simp add: py_def)
  from get_conversation_id_sorted_join [of "py ''b2c3d4e5''" "py ''a1f0''"]
  have s: "get_conversation_id (py ''b2c3d4e5'') (py ''a1f0'')
             = get_conversation_id (py ''a1f0'') (py ''b2c3d4e5'')"
    and j: "get_conversation_id (py ''b2c3d4e5'') (py ''a1f0'')
             = min (py ''b2c3d4e5'') (py ''a1f0'') @ py ''_'' @ max (py ''b2c3d4e5'') (py ''a1f0'')"
    by blast+
  from j have 1: "get_conversation_id (py ''b2c3d4e5'') (py ''a1f0'') = py ''a1f0_b2c3d4e5''"
    unfolding m v .
  from s [symmetric] 1
  have 2: "get_conversation_id (py ''a1f0'') (py ''b2c3d4e5'') = py ''a1f0_b2c3d4e5''"
    by (rule trans)
  from 1 2 show ?thesis by (rule conjI)
qed

text \<open>
  C9. Membership of a user in a conversation is decided by splitting the conversation
  key on the underscore (code point 95). No piece of such a split contains an
  underscore, so for a user whose id contains one the unread count is 0 and the list of
  conversations is empty, whatever the message store holds.
\<close>

theorem underscore_user_sees_nothing:
  "95 \<in> set uid \<Longrightarrow>
     api_messages_unread_count pm (Some uid) = 0
   \<and> api_get_conversations db pm (Some uid) = Inr (True, [])"
  by (simp add: api_messages_unread_count_def api_get_conversations_def
        unread_loop_underscore conversations_loop_underscore)


text \<open>
  A store in which the registered user \<open>ab12cd34\<close> has sent one message, still unread, to
  \<open>demo_user1\<close>: the receiver is told of no unread message and no conversation.
\<close>

theorem underscore_user_sees_nothing_witness:
  "95 \<in> set (py ''demo_user1'')
   \<and> unread_in (py ''demo_user1'')
        [\<lparr>msg_id = py ''0a1b2c3d'', sender_id = py ''ab12cd34'', receiver_id = py ''demo_user1'',
          content = py ''hello'', read = False, created_at = py ''2026-01-01 10:00''\<rparr>] = 1
   \<and> api_messages_unread_count
        [(get_conversation_id (py ''ab12cd34'') (py ''demo_user1''),
          [\<lparr>msg_id = py ''0a1b2c3d'', sender_id = py ''ab12cd34'', receiver_id = py ''demo_user1'',
            content = py ''hello'', read = False, created_at = py ''2026-01-01 10:00''\<rparr>])]
        (Some (py ''demo_user1'')) = 0
   \<and> api_get_conversations []
        [(get_conversation_id (py ''ab12cd34'') (py ''demo_user1''),
          [\<lparr>msg_id = py ''0a1b2c3d'', sender_id = py ''ab12cd34'', receiver_id = py ''demo_user1'',
            content = py ''hello'', read = False, created_at = py ''2026-01-01 10:00''\<rparr>])]
        (Some (py ''demo_user1'')) = Inr (True, [])"
proof -
  have h: "95 \<in> set (py ''demo_user1'')" by (simp add: py_def)
  have "unread_in (py ''demo_user1'')
        [\<lparr>msg_id = py ''0a1b2c3d'', sender_id = py ''ab12cd34'', receiver_id = py ''demo_user1'',
          content = py ''hello'', read = False, created_at = py ''2026-01-01 10:00''\<rparr>] = 1"
    by (simp add: unread_in_def)
  with h underscore_user_sees_nothing [OF h] show ?thesis by blast
qed
section \<open>Claims on post likes\<close>

text \<open>
  C1. Take a post, by its place in \<open>experience_posts\<close>, that has no user id twice in
  \<open>liked_by\<close> and not fewer \<open>likes\<close> than entries of \<open>liked_by\<close> when a sequence of calls
  of the like route starts, whoever the callers, whatever the posts and the times named.
  After the sequence the list has the same length, the post at that place has the same
  id, no user id twice in \<open>liked_by\<close>, and the same surplus of \<open>likes\<close> over the number
  of entries of \<open>liked_by\<close>. So a post that starts with \<open>likes\<close> equal to that number, as
  every post made by \<open>api_create_post\<close> does, has them equal afterwards, and a seeded post
  keeps the surplus it starts with. Nothing is asked of the other posts of the state.
\<close>

theorem likes_count_invariant:
  assumes "i < length (experience_posts st)"
      and "distinct (liked_by (experience_posts st ! i))"
      and "int (length (liked_by (experience_posts st ! i))) \<le> likes (experience_posts st ! i)"
  shows "length (experience_posts (fst (run_like_requests st reqs))) = length (experience_posts st)
       \<and> post_id (experience_posts (fst (run_like_requests st reqs)) ! i)
           = post_id (experience_posts st ! i)
       \<and> distinct (liked_by (experience_posts (fst (run_like_requests st reqs)) ! i))
       \<and> likes (experience_posts (fst (run_like_requests st reqs)) ! i)
           - int (length (liked_by (experience_posts (fst (run_like_requests st reqs)) ! i)))
           = likes (experience_posts st ! i) - int (length (liked_by (experience_posts st ! i)))
       \<and> (likes (experience_posts st ! i) = int (length (liked_by (experience_posts st ! i)))
            \<longrightarrow> likes (experience_posts (fst (run_like_requests st reqs)) ! i)
                  = int (length (liked_by (experience_posts (fst (run_like_requests st reqs)) ! i))))"
proof -
  from run_like_requests_kept [of st reqs] assms(1)
  have "length (experience_posts (fst (run_like_requests st reqs))) = length (experience_posts st)"
    and "kept (experience_posts st ! i) (experience_posts (fst (run_like_requests st reqs)) ! i)"
    by simp_all
  with assms(2,3) show ?thesis unfolding kept_def by auto
qed

text \<open>
  A post made by a user, put before the seeded posts as \<open>api_create_post\<close> does: it is
  liked by two users and unliked by the first, and the first seeded post is liked once.
  The new post has as many likes as entries, the seeded post still 42 more.
\<close>

theorem likes_count_invariant_witness:
  "likes (experience_posts
      \<lparr>experience_posts =
         \<lparr>post_id = py ''9f8e7d6c'', author_id = py ''ab12cd34'', likes = 0, liked_by = []\<rparr>
           # seed_posts,
       user_likes = Map.empty, user_favorites = []\<rparr> ! 0) = 0
   \<and> likes (experience_posts (fst (run_like_requests
      \<lparr>experience_posts =
         \<lparr>post_id = py ''9f8e7d6c'', author_id = py ''ab12cd34'', likes = 0, liked_by = []\<rparr>
           # seed_posts,
       user_likes = Map.empty, user_favorites = []\<rparr>
      [(Some (py ''ab12cd34''), py ''9f8e7d6c'', DateTime 100 5, DateTime 100 6),
       (Some (py ''55aa66bb''), py ''1'', DateTime 100 7, DateTime 100 8),
       (Some (py ''55aa66bb''), py ''9f8e7d6c'', DateTime 100 9, DateTime 100 10),
       (Some (py ''ab12cd34''), py ''9f8e7d6c'', DateTime 100 11, DateTime 100 12)])) ! 0)
     = int (length (liked_by (experience_posts (fst (run_like_requests
      \<lparr>experience_posts =
         \<lparr>post_id = py ''9f8e7d6c'', author_id = py ''ab12cd34'', likes = 0, liked_by = []\<rparr>
           # seed_posts,
       user_likes = Map.empty, user_favorites = []\<rparr>
      [(Some (py ''ab12cd34''), py ''9f8e7d6c'', DateTime 100 5, DateTime 100 6),
       (Some (py ''55aa66bb''), py ''1'', DateTime 100 7, DateTime 100 8),
       (Some (py ''55aa66bb''), py ''9f8e7d6c'', DateTime 100 9, DateTime 100 10),
       (Some (py ''ab12cd34''), py ''9f8e7d6c'', DateTime 100 11, DateTime 100 12)])) ! 0)))
   \<and> distinct (liked_by (experience_posts (fst (run_like_requests
      \<lparr>experience_posts =
         \<lparr>post_id = py ''9f8e7d6c'', author_id = py ''ab12cd34'', likes = 0, liked_by = []\<rparr>
           # seed_posts,
       user_likes = Map.empty, user_favorites = []\<rparr>
      [(Some (py ''ab12cd34''), py ''9f8e7d6c'', DateTime 100 5, DateTime 100 6),
       (Some (py ''55aa66bb''), py ''1'', DateTime 100 7, DateTime 100 8),
       (Some (py ''55aa66bb''), py ''9f8e7d6c'', DateTime 100 9, DateTime 100 10),
       (Some (py ''ab12cd34''), py ''9f8e7d6c'', DateTime 100 11, DateTime 100 12)])) ! 0))
   \<and> likes (experience_posts (fst (run_like_requests
      \<lparr>experience_posts =
         \<lparr>post_id = py ''9f8e7d6c'', author_id = py ''ab12cd34'', likes = 0, liked_by = []\<rparr>
           # seed_posts,
       user_likes = Map.empty, user_favorites = []\<rparr>
      [(Some (py ''ab12cd34''), py ''9f8e7d6c'', DateTime 100 5, DateTime 100 6),
       (Some (py ''55aa66bb''), py ''1'', DateTime 100 7, DateTime 100 8),
       (Some (py ''55aa66bb''), py ''9f8e7d6c'', DateTime 100 9, DateTime 100 10),
       (Some (py ''ab12cd34''), py ''9f8e7d6c'', DateTime 100 11, DateTime 100 12)])) ! 1)
     - int (length (liked_by (experience_posts (fst (run_like_requests
      \<lparr>experience_posts =
         \<lparr>post_id = py ''9f8e7d6c'', author_id = py ''ab12cd34'', likes = 0, liked_by = []\<rparr>
           # seed_posts,
       user_likes = Map.empty, user_favorites = []\<rparr>
      [(Some (py ''ab12cd34''), py ''9f8e7d6c'', DateTime 100 5, DateTime 100 6),
       (Some (py ''55aa66bb''), py ''1'', DateTime 100 7, DateTime 100 8),
       (Some (py ''55aa66bb''), py ''9f8e7d6c'', DateTime 100 9, DateTime 100 10),
       (Some (py ''ab12cd34''), py ''9f8e7d6c'', DateTime 100 11, DateTime 100 12)])) ! 1)))
     = 42"
proof -
  let ?c = "\<lparr>post_id = py ''9f8e7d6c'', author_id = py ''ab12cd34'', likes = 0, liked_by = []\<rparr>"
  let ?s = "\<lparr>experience_posts = ?c # seed_posts, user_likes = Map.empty, user_favorites = []\<rparr>"
  let ?r = "[(Some (py ''ab12cd34''), py ''9f8e7d6c'', DateTime 100 5, DateTime 100 6),
       (Some (py ''55aa66bb''), py ''1'', DateTime 100 7, DateTime 100 8),
       (Some (py ''55aa66bb''), py ''9f8e7d6c'', DateTime 100 9, DateTime 100 10),
       (Some (py ''ab12cd34''), py ''9f8e7d6c'', DateTime 100 11, DateTime 100 12)]"
  have h0: "0 < length (experience_posts ?s)" "distinct (liked_by (experience_posts ?s ! 0))"
    "int (length (liked_by (experience_posts ?s ! 0))) \<le> likes (experience_posts ?s ! 0)"
    "likes (experience_posts ?s ! 0) = int (length (liked_by (experience_posts ?s ! 0)))"
    by simp_all
  have h1: "1 < length (experience_posts ?s)" "distinct (liked_by (experience_posts ?s ! 1))"
    "int (length (liked_by (experience_posts ?s ! 1))) \<le> likes (experience_posts ?s ! 1)"
    by (simp_all add: seed_posts_def)
  have v: "likes (experience_posts ?s ! 0) = 0"
    "likes (experience_posts ?s ! 1) - int (length (liked_by (experience_posts ?s ! 1))) = 42"
    by (simp_all add: seed_posts_def)
  from likes_count_invariant [OF h0(1,2,3), of ?r] h0(4)
  have a: "likes (experience_posts (fst (run_like_requests ?s ?r)) ! 0)
             = int (length (liked_by (experience_posts (fst (run_like_requests ?s ?r)) ! 0)))"
    and b: "distinct (liked_by (experience_posts (fst (run_like_requests ?s ?r)) ! 0))"
    by blast+
  from likes_count_invariant [OF h1, of ?r] v(2)
  have c: "likes (experience_posts (fst (run_like_requests ?s ?r)) ! 1)
     - int (length (liked_by (experience_posts (fst (run_like_requests ?s ?r)) ! 1))) = 42"
    by simp
  from v(1) a b c show ?thesis by blast
qed

text \<open>
  The claim as it is written, for every post, fails on the posts the application starts
  with: the first of them has 42 likes and nobody in \<open>liked_by\<close>, and after one like by a
  user it has 43 likes and one entry.
\<close>

theorem likes_count_seed_counterexample:
  "likes (experience_posts (fst (run_like_requests initial_state
      [(Some (py ''ab12cd34''), py ''1'', DateTime 100 5, DateTime 100 6)])) ! 0) = 43
   \<and> length (liked_by (experience_posts (fst (run_like_requests initial_state
      [(Some (py ''ab12cd34''), py ''1'', DateTime 100 5, DateTime 100 6)])) ! 0)) = 1"
  by (simp add: initial_state_def seed_posts_def api_like_post_def like_body_def
        can_like_post_def likes_of_def today_likes_def py_def)

text \<open>
  C2. After a like of post P by user U has succeeded, the next call of the like route by
  U on P, on the same day or any other, is not refused: it is the unlike, answered with
  \<open>liked = False\<close> and the count just reported less one (not below 0). The refusal
  "already liked today" is the answer if and only if U is not in \<open>liked_by\<close> of the first
  post with the id while a like timestamp of today (or later) is on record for U and P;
  a call so refused leaves the whole state as it is.
\<close>

theorem second_like_same_day:
  "(snd (api_like_post st (Some u) pid t1 t2) = Inr (n, True) \<longrightarrow>
      snd (api_like_post (fst (api_like_post st (Some u) pid t1 t2)) (Some u) pid t3 t4)
        = Inr (max 0 (n - 1), False))
   \<and> (snd (api_like_post st (Some u) pid t1 t2) = Inl (RateLimited AlreadyLikedToday)
        \<longleftrightarrow> (\<exists>p ts. find (\<lambda>p. post_id p = pid) (experience_posts st) = Some p
                \<and> u \<notin> set (liked_by p)
                \<and> map_of (likes_of (user_likes st) u) pid = Some ts \<and> dt_day t1 \<le> dt_day ts))
   \<and> (api_like_post st (Some u) pid t1 t2 = (st, Inl (RateLimited AlreadyLikedToday))
        \<longleftrightarrow> snd (api_like_post st (Some u) pid t1 t2) = Inl (RateLimited AlreadyLikedToday))"
proof -
  have a: "snd (api_like_post st (Some u) pid t1 t2) = Inr (n, True) \<longrightarrow>
      snd (api_like_post (fst (api_like_post st (Some u) pid t1 t2)) (Some u) pid t3 t4)
        = Inr (max 0 (n - 1), False)"
  proof
    assume a: "snd (api_like_post st (Some u) pid t1 t2) = Inr (n, True)"
    obtain st1 where "api_like_post st (Some u) pid t1 t2 = (st1, Inr (n, True))"
      using a by (cases "api_like_post st (Some u) pid t1 t2") auto
    with like_again_unlikes [OF this, of t3 t4]
    show "snd (api_like_post (fst (api_like_post st (Some u) pid t1 t2)) (Some u) pid t3 t4)
        = Inr (max 0 (n - 1), False)"
      by simp
  qed
  have b: "(\<exists>p ts. find (\<lambda>p. post_id p = pid) (experience_posts st) = Some p
                \<and> u \<notin> set (liked_by p)
                \<and> map_of (likes_of (user_likes st) u) pid = Some ts \<and> dt_day t1 \<le> dt_day ts)
      \<Longrightarrow> api_like_post st (Some u) pid t1 t2 = (st, Inl (RateLimited AlreadyLikedToday))"
    using like_refused_with_record [of pid st _ u _ t1 t2] by blast
  have c: "snd (api_like_post st (Some u) pid t1 t2) = Inl (RateLimited AlreadyLikedToday)
      \<Longrightarrow> (\<exists>p ts. find (\<lambda>p. post_id p = pid) (experience_posts st) = Some p
                \<and> u \<notin> set (liked_by p)
                \<and> map_of (likes_of (user_likes st) u) pid = Some ts \<and> dt_day t1 \<le> dt_day ts)"
    by (rule rejected_only_when)
  have d: "api_like_post st (Some u) pid t1 t2 = (st, Inl (RateLimited AlreadyLikedToday))
      \<Longrightarrow> snd (api_like_post st (Some u) pid t1 t2) = Inl (RateLimited AlreadyLikedToday)"
    by simp
  from a b c d show ?thesis by blast
qed

text \<open>
  The application as it starts: a user likes the first seeded post and calls again,
  which is the unlike and not a refusal. The refusal is shown on a store written by hand,
  in which a like of today is on record for a user who is not in \<open>liked_by\<close>.
\<close>

theorem second_like_same_day_witness:
  "snd (api_like_post initial_state
      (Some (py ''ab12cd34'')) (py ''1'') (DateTime 100 5) (DateTime 100 6)) = Inr (43, True)
   \<and> snd (api_like_post (fst (api_like_post initial_state
      (Some (py ''ab12cd34'')) (py ''1'') (DateTime 100 5) (DateTime 100 6)))
      (Some (py ''ab12cd34'')) (py ''1'') (DateTime 100 7) (DateTime 100 8))
       = Inr (max 0 (43 - 1), False)
   \<and> snd (api_like_post (fst (api_like_post initial_state
      (Some (py ''ab12cd34'')) (py ''1'') (DateTime 100 5) (DateTime 100 6)))
      (Some (py ''ab12cd34'')) (py ''1'') (DateTime 100 7) (DateTime 100 8))
       \<noteq> Inl (RateLimited AlreadyLikedToday)
   \<and> api_like_post
      \<lparr>experience_posts = seed_posts,
       user_likes = [py ''ab12cd34'' \<mapsto> [(py ''1'', DateTime 100 6)]],
       user_favorites = []\<rparr>
      (Some (py ''ab12cd34'')) (py ''1'') (DateTime 100 7) (DateTime 100 8)
     = (\<lparr>experience_posts = seed_posts,
        user_likes = [py ''ab12cd34'' \<mapsto> [(py ''1'', DateTime 100 6)]],
        user_favorites = []\<rparr>,
        Inl (RateLimited AlreadyLikedToday))"
proof -
  let ?r = "\<lparr>experience_posts = seed_posts,
             user_likes = [py ''ab12cd34'' \<mapsto> [(py ''1'', DateTime 100 6)]],
             user_favorites = []\<rparr>"
  have a: "snd (api_like_post initial_state (Some (py ''ab12cd34'')) (py ''1'')
             (DateTime 100 5) (DateTime 100 6)) = Inr (43, True)"
    by (simp add: initial_state_def seed_posts_def api_like_post_def like_body_def
          can_like_post_def likes_of_def today_likes_def)
  have b: "find (\<lambda>p. post_id p = py ''1'') (experience_posts ?r)
            = Some \<lparr>post_id = py ''1'', author_id = py ''system'', likes = 42, liked_by = []\<rparr>
        \<and> py ''ab12cd34'' \<notin> set (liked_by
              \<lparr>post_id = py ''1'', author_id = py ''system'', likes = 42, liked_by = []\<rparr>)
        \<and> map_of (likes_of (user_likes ?r) (py ''ab12cd34'')) (py ''1'') = Some (DateTime 100 6)
        \<and> dt_day (DateTime 100 7) \<le> dt_day (DateTime 100 6)"
    by (simp add: likes_of_def seed_posts_def)
  note t1 = second_like_same_day [of initial_state "py ''ab12cd34''" "py ''1''" "DateTime 100 5"
      "DateTime 100 6" 43 "DateTime 100 7" "DateTime 100 8"]
  note t2 = second_like_same_day [of ?r "py ''ab12cd34''" "py ''1''" "DateTime 100 7"
      "DateTime 100 8"]
  from a t1 have c: "snd (api_like_post (fst (api_like_post initial_state
      (Some (py ''ab12cd34'')) (py ''1'') (DateTime 100 5) (DateTime 100 6)))
      (Some (py ''ab12cd34'')) (py ''1'') (DateTime 100 7) (DateTime 100 8))
       = Inr (max 0 (43 - 1), False)"
    by blast
  then have d: "snd (api_like_post (fst (api_like_post initial_state
      (Some (py ''ab12cd34'')) (py ''1'') (DateTime 100 5) (DateTime 100 6)))
      (Some (py ''ab12cd34'')) (py ''1'') (DateTime 100 7) (DateTime 100 8))
       \<noteq> Inl (RateLimited AlreadyLikedToday)"
    by simp
  from b t2 have e: "api_like_post ?r (Some (py ''ab12cd34'')) (py ''1'')
      (DateTime 100 7) (DateTime 100 8) = (?r, Inl (RateLimited AlreadyLikedToday))"
    by blast
  from a c d e show ?thesis by blast
qed


text \<open>
  The claim as it is written fails: on a post with no like, a user likes (1 like), and
  the same user's second call a moment later is answered with a success, \<open>liked = False\<close>
  and 0 likes: it is not refused, and the count has changed.
\<close>

theorem second_like_same_day_counterexample:
  "snd (api_like_post
      \<lparr>experience_posts = [\<lparr>post_id = py ''9f8e7d6c'', author_id = py ''55aa66bb'',
                             likes = 0, liked_by = []\<rparr>],
       user_likes = Map.empty, user_favorites = []\<rparr>
      (Some (py ''ab12cd34'')) (py ''9f8e7d6c'') (DateTime 100 5) (DateTime 100 6)) = Inr (1, True)
   \<and> snd (api_like_post (fst (api_like_post
      \<lparr>experience_posts = [\<lparr>post_id = py ''9f8e7d6c'', author_id = py ''55aa66bb'',
                             likes = 0, liked_by = []\<rparr>],
       user_likes = Map.empty, user_favorites = []\<rparr>
      (Some (py ''ab12cd34'')) (py ''9f8e7d6c'') (DateTime 100 5) (DateTime 100 6)))
      (Some (py ''ab12cd34'')) (py ''9f8e7d6c'') (DateTime 100 7) (DateTime 100 8))
       = Inr (0, False)"
  by (simp add: api_like_post_def like_body_def can_like_post_def likes_of_def today_likes_def)

text \<open>
  C4. In a sequence of calls of the like route, by any callers, a user has 50 different
  posts for each of which the sequence holds a call by the user that was answered with a
  like (\<open>liked = True\<close>), recorded on day \<open>d\<close>, and followed by no further call of the user
  on that post: none of the 50 likes has been unliked. A further post \<open>q\<close> exists, is not
  liked by the user and has no like of the user on record from day \<open>d\<close> on, and no like
  of the user is on record with a date after \<open>d\<close>. Then a call of the like route by the
  user on \<open>q\<close> on day \<open>d\<close> is refused with "daily like limit reached" and leaves the
  posts as they are, and the same call on any later day is answered with a like.
\<close>

theorem daily_like_limit:
  assumes run: "st' = fst (run_like_requests st reqs)"
      and len: "length ps = 50"
      and dist: "distinct ps"
      and each: "\<forall>pid \<in> set ps. \<exists>before t1 t2 n after.
                   reqs = before @ (Some u, pid, t1, t2) # after
                 \<and> snd (api_like_post (fst (run_like_requests st before)) (Some u) pid t1 t2)
                     = Inr (n, True)
                 \<and> dt_day t2 = d
                 \<and> (\<forall>(c, p, a, b) \<in> set after. \<not> (c = Some u \<and> p = pid))"
      and post: "find (\<lambda>p. post_id p = q) (experience_posts st') = Some p"
      and nin: "u \<notin> set (liked_by p)"
      and norec: "\<forall>ts. map_of (likes_of (user_likes st') u) q = Some ts \<longrightarrow> dt_day ts < d"
      and past: "\<forall>(pid, ts) \<in> set (likes_of (user_likes st') u). dt_day ts \<le> d"
  shows "(dt_day now = d \<longrightarrow>
            snd (api_like_post st' (Some u) q now now') = Inl (RateLimited DailyLimitReached)
          \<and> experience_posts (fst (api_like_post st' (Some u) q now now')) = experience_posts st')
       \<and> (d < dt_day now \<longrightarrow>
            snd (api_like_post st' (Some u) q now now') = Inr (likes p + 1, True))"
proof -
  have rec: "\<forall>pid \<in> set ps. \<exists>ts. map_of (likes_of (user_likes st') u) pid = Some ts \<and> dt_day ts = d"
  proof
    fix pid assume "pid \<in> set ps"
    with each obtain before t1 t2 n after where
      h: "reqs = before @ (Some u, pid, t1, t2) # after"
         "snd (api_like_post (fst (run_like_requests st before)) (Some u) pid t1 t2) = Inr (n, True)"
         "dt_day t2 = d"
         "\<forall>(c, p, a, b) \<in> set after. \<not> (c = Some u \<and> p = pid)"
      by blast
    from like_in_force_recorded [OF h(1,2,4)] h(3) run
    show "\<exists>ts. map_of (likes_of (user_likes st') u) pid = Some ts \<and> dt_day ts = d" by simp
  qed
  have same: "dt_day now = d \<longrightarrow>
            snd (api_like_post st' (Some u) q now now') = Inl (RateLimited DailyLimitReached)
          \<and> experience_posts (fst (api_like_post st' (Some u) q now now')) = experience_posts st'"
  proof
    assume n: "dt_day now = d"
    with rec have "\<forall>pid \<in> set ps. \<exists>ts. map_of (likes_of (user_likes st') u) pid = Some ts
                      \<and> dt_day now \<le> dt_day ts" by auto
    from today_likes_count [OF dist this] len
    have "50 \<le> today_likes (likes_of (user_likes st') u) now" by simp
    moreover from norec n
    have "\<not> (\<exists>ts. map_of (likes_of (user_likes st') u) q = Some ts \<and> dt_day now \<le> dt_day ts)"
      by auto
    ultimately have "snd (can_like_post (user_likes st') u q now) = Some DailyLimitReached"
      by (simp add: can_like_post_result)
    from like_new_post [OF post nin this, of now'] show
      "snd (api_like_post st' (Some u) q now now') = Inl (RateLimited DailyLimitReached)
          \<and> experience_posts (fst (api_like_post st' (Some u) q now now')) = experience_posts st'"
      by simp
  qed
  have later: "d < dt_day now \<longrightarrow>
            snd (api_like_post st' (Some u) q now now') = Inr (likes p + 1, True)"
  proof
    assume n: "d < dt_day now"
    have old: "\<forall>(p, ts) \<in> set (likes_of (user_likes st') u). dt_day ts < dt_day now"
      using past n by auto
    have "\<not> (\<exists>ts. map_of (likes_of (user_likes st') u) q = Some ts \<and> dt_day now \<le> dt_day ts)"
      using norec n by auto
    with today_likes_none [OF old]
    have "snd (can_like_post (user_likes st') u q now) = None"
      by (simp add: can_like_post_result)
    from like_new_post [OF post nin this, of now'] show
      "snd (api_like_post st' (Some u) q now now') = Inr (likes p + 1, True)" by simp
  qed
  from same later show ?thesis by blast
qed

text \<open>
  The scenario store: user \<open>ab12cd34\<close> likes posts 1 to 50 on day 100; the like of post
  51 is refused a second before midnight and accepted at midnight.
\<close>

theorem daily_like_limit_witness:
  "length (map fst example_likes) = 50
   \<and> distinct (map fst example_likes)
   \<and> list_all (\<lambda>r. case r of Inl e \<Rightarrow> False | Inr (n, liked) \<Rightarrow> liked)
         (snd (run_like_requests example_state example_requests))
   \<and> find (\<lambda>p. post_id p = [51])
         (experience_posts (fst (run_like_requests example_state example_requests)))
       = Some (example_post 51)
   \<and> snd (api_like_post (fst (run_like_requests example_state example_requests))
        (Some (py ''ab12cd34'')) [51] (DateTime 100 86399000000) (DateTime 100 86399000001))
       = Inl (RateLimited DailyLimitReached)
   \<and> snd (api_like_post (fst (run_like_requests example_state example_requests))
        (Some (py ''ab12cd34'')) [51] (DateTime 101 0) (DateTime 101 1))
       = Inr (1, True)"
proof -
  let ?u = "py ''ab12cd34''"
  let ?st' = "fst (run_like_requests example_state example_requests)"
  have len: "length (map fst example_likes) = 50" by (simp add: example_likes_def)
  have dist: "distinct (map fst example_likes)"
    by (simp add: example_likes_def distinct_map comp_def inj_on_def)
  have each: "\<forall>pid \<in> set (map fst example_likes). \<exists>before t1 t2 n after.
                   example_requests = before @ (Some ?u, pid, t1, t2) # after
                 \<and> snd (api_like_post (fst (run_like_requests example_state before)) (Some ?u) pid t1 t2)
                     = Inr (n, True)
                 \<and> dt_day t2 = 100
                 \<and> (\<forall>(c, p, a, b) \<in> set after. \<not> (c = Some ?u \<and> p = pid))"
  proof
    fix pid assume "pid \<in> set (map fst example_likes)"
    then obtain t1 t2 where mem: "(pid, t1, t2) \<in> set example_likes" by auto
    then have day: "dt_day t2 = 100" by (auto simp: example_likes_def)
    from consecutive_in_force [OF example_likes_fresh dist mem] day
    show "\<exists>before t1 t2 n after.
                   example_requests = before @ (Some ?u, pid, t1, t2) # after
                 \<and> snd (api_like_post (fst (run_like_requests example_state before)) (Some ?u) pid t1 t2)
                     = Inr (n, True)
                 \<and> dt_day t2 = 100
                 \<and> (\<forall>(c, p, a, b) \<in> set after. \<not> (c = Some ?u \<and> p = pid))"
      unfolding example_requests_def by blast
  qed
  note post = example_after_post_51
  have nin: "?u \<notin> set (liked_by (example_post 51))" by (simp add: example_post_def)
  have "[51] \<notin> fst ` set example_likes" by (auto simp: example_likes_def)
  from record_likes_other [OF this, of "[]"]
  have norec: "\<forall>ts. map_of (likes_of (user_likes ?st') ?u) [51] = Some ts \<longrightarrow> dt_day ts < 100"
    by (simp add: example_after_records)
  have past: "\<forall>(pid, ts) \<in> set (likes_of (user_likes ?st') ?u). dt_day ts \<le> 100"
  proof (clarify)
    fix pid ts assume "(pid, ts) \<in> set (likes_of (user_likes ?st') ?u)"
    with record_likes_entries [of pid ts "[]" example_likes]
    have "\<exists>t1. (pid, t1, ts) \<in> set example_likes" by (simp add: example_after_records)
    then show "dt_day ts \<le> 100" by (auto simp: example_likes_def)
  qed
  note t = daily_like_limit [OF refl len dist each post nin norec past]
  have "likes (example_post 51) + 1 = 1" by (simp add: example_post_def)
  with t [of "DateTime 100 86399000000" "DateTime 100 86399000001"]
       t [of "DateTime 101 0" "DateTime 101 1"]
       len dist example_requests_run post
  show ?thesis by (simp add: list_all_iff)
qed


text \<open>
  The claim as it is written, for every user who has performed 50 successful likes in
  the day, fails when one of them is unliked: in the scenario store the user likes posts
  1 to 50, unlikes post 50, which deletes its timestamp, and the like of post 51 on the
  same day is accepted.
\<close>

theorem unlike_frees_daily_limit_counterexample:
  "list_all (\<lambda>r. case r of Inl e \<Rightarrow> False | Inr (n, liked) \<Rightarrow> liked)
      (snd (run_like_requests example_state example_requests))
   \<and> snd (api_like_post (fst (run_like_requests example_state example_requests))
        (Some (py ''ab12cd34'')) [50] (DateTime 100 60) (DateTime 100 61)) = Inr (0, False)
   \<and> snd (api_like_post
        (fst (api_like_post (fst (run_like_requests example_state example_requests))
           (Some (py ''ab12cd34'')) [50] (DateTime 100 60) (DateTime 100 61)))
        (Some (py ''ab12cd34'')) [51] (DateTime 100 62) (DateTime 100 63)) = Inr (1, True)"
proof -
  let ?u = "py ''ab12cd34''"
  let ?b = "map (\<lambda>(pid, t1, t2). (Some ?u, pid, t1, t2))
       (map (\<lambda>n. ([n], DateTime 100 n, DateTime 100 (n + 1))) [1..<50])"
  let ?s49 = "fst (run_like_requests example_state ?b)"
  let ?s50 = "fst (run_like_requests example_state example_requests)"
  let ?s51 = "fst (api_like_post ?s50 (Some ?u) [50] (DateTime 100 60) (DateTime 100 61))"
  have s50: "?s50 = fst (api_like_post ?s49 (Some ?u) [50] (DateTime 100 50) (DateTime 100 51))"
    unfolding example_requests_split run_append_fst run_single by simp
  have "snd (api_like_post ?s49 (Some ?u) [50] (DateTime 100 50) (DateTime 100 51))
          \<in> set (snd (run_like_requests example_state example_requests))"
    unfolding example_requests_split run_append_snd run_single by simp
  with example_requests_run obtain n where
    r50: "snd (api_like_post ?s49 (Some ?u) [50] (DateTime 100 50) (DateTime 100 51)) = Inr (n, True)"
    by (cases "snd (api_like_post ?s49 (Some ?u) [50] (DateTime 100 50) (DateTime 100 51))")
       (auto split: prod.splits)
  have "\<forall>(c, p, a, b) \<in> set ?b. p \<noteq> [50]" by auto
  from run_other_post [OF this, of example_state]
  have f49: "find (\<lambda>p. post_id p = [50]) (experience_posts ?s49) = Some (example_post 50)"
    by (simp add: example_state_def find_example_post)
  from api_like_post_liked_post [OF r50 f49]
  have f50: "find (\<lambda>p. post_id p = [50]) (experience_posts ?s50)
               = Some (example_post 50\<lparr>likes := likes (example_post 50) + 1,
                                        liked_by := liked_by (example_post 50) @ [?u]\<rparr>)"
    unfolding s50 by simp
  have m50: "?u \<in> set (liked_by (example_post 50\<lparr>likes := likes (example_post 50) + 1,
                                        liked_by := liked_by (example_post 50) @ [?u]\<rparr>))"
    by simp
  note un = api_like_post_unliked [OF f50 m50, of "DateTime 100 60" "DateTime 100 61"]
  from un have r51: "snd (api_like_post ?s50 (Some ?u) [50] (DateTime 100 60) (DateTime 100 61))
                       = Inr (0, False)"
    by (simp add: example_post_def)
  from un have rec51: "likes_of (user_likes ?s51) ?u = AList.delete [50] (record_likes [] example_likes)"
    by (simp add: example_after_records)
  have "([50], DateTime 100 50, DateTime 100 51) \<in> set example_likes"
    by (auto simp: example_likes_def)
  moreover have dist: "distinct (map fst example_likes)"
    by (simp add: example_likes_def distinct_map comp_def inj_on_def)
  ultimately have "map_of (record_likes [] example_likes) [50] = Some (DateTime 100 51)"
    by (intro record_likes_recorded)
  from length_delete_less [OF this] length_record_likes [of "[]" example_likes]
  have "length (likes_of (user_likes ?s51) ?u) < 50"
    by (simp add: rec51 example_likes_def)
  with today_likes_le [of "likes_of (user_likes ?s51) ?u" "DateTime 100 62"]
  have few: "\<not> 50 \<le> today_likes (likes_of (user_likes ?s51) ?u) (DateTime 100 62)" by simp
  have "[51] \<notin> fst ` set example_likes" by (auto simp: example_likes_def)
  from record_likes_other [OF this, of "[]"]
  have none: "map_of (likes_of (user_likes ?s51) ?u) [51] = None"
    by (simp add: rec51)
  from few none have can: "snd (can_like_post (user_likes ?s51) ?u [51] (DateTime 100 62)) = None"
    by (simp add: can_like_post_result)
  have f51: "find (\<lambda>p. post_id p = [51]) (experience_posts ?s51) = Some (example_post 51)"
    using api_like_post_other_post [of "[50]" "[51]" ?s50 "Some ?u" "DateTime 100 60" "DateTime 100 61"]
    by (simp add: example_after_post_51)
  have nin: "?u \<notin> set (liked_by (example_post 51))" by (simp add: example_post_def)
  from like_new_post [OF f51 nin can, of "DateTime 100 63"]
  have r52: "snd (api_like_post ?s51 (Some ?u) [51] (DateTime 100 62) (DateTime 100 63)) = Inr (1, True)"
    by (simp add: example_post_def)
  from example_requests_run r51 r52 show ?thesis by (simp add: list_all_iff)
qed

section \<open>Claims on deletion and offers\<close>

text \<open>
  C8. The delete route succeeds exactly when the caller is logged in, a post with the id
  exists, and the caller's id is the \<open>author_id\<close> of the first such post; in every
  other case it leaves the state as it is. On success the post is taken out of
  \<open>experience_posts\<close> (no post has the id any more when ids are not shared), every user
  keeps a favourite list, and, the favourite lists being without duplicates as
  \<open>api_toggle_favorite\<close> keeps them, no favourite list holds the id of the deleted post
  when the call returns.
\<close>

theorem delete_post_owner_only:
  "(snd (api_delete_post st cur pid) = Inr ()
      \<longleftrightarrow> (\<exists>p. find (\<lambda>p. post_id p = pid) (experience_posts st) = Some p
               \<and> cur = Some (author_id p)))
   \<and> (snd (api_delete_post st cur pid) \<noteq> Inr () \<longrightarrow> fst (api_delete_post st cur pid) = st)
   \<and> (snd (api_delete_post st cur pid) = Inr () \<longrightarrow>
        (\<exists>p. find (\<lambda>p. post_id p = pid) (experience_posts st) = Some p
           \<and> experience_posts (fst (api_delete_post st cur pid))
               = remove1 p (experience_posts st))
      \<and> (distinct (map post_id (experience_posts st)) \<longrightarrow>
           pid \<notin> post_id ` set (experience_posts (fst (api_delete_post st cur pid))))
      \<and> map fst (user_favorites (fst (api_delete_post st cur pid)))
           = map fst (user_favorites st)
      \<and> ((\<forall>(u, favs) \<in> set (user_favorites st). distinct favs) \<longrightarrow>
           (\<forall>(u, favs) \<in> set (user_favorites (fst (api_delete_post st cur pid))).
               pid \<notin> set favs)))"
proof (cases cur)
  case None
  then show ?thesis by (simp add: api_delete_post_run)
next
  case (Some uid)
  show ?thesis
  proof (cases "find (\<lambda>p. post_id p = pid) (experience_posts st)")
    case None
    with Some show ?thesis by (simp add: api_delete_post_run)
  next
    case f: (Some p)
    show ?thesis
    proof (cases "author_id p = uid")
      case False
      with Some f show ?thesis by (auto simp: api_delete_post_run)
    next
      case True
      have r: "api_delete_post st cur pid =
                 (st\<lparr>experience_posts := remove1 p (experience_posts st),
                     user_favorites := purge_favorites pid (user_favorites st)\<rparr>, Inr ())"
        using Some f True by (simp add: api_delete_post_run)
      have a: "distinct (map post_id (experience_posts st)) \<longrightarrow>
                 pid \<notin> post_id ` set (remove1 p (experience_posts st))"
        using removed_post_gone [OF _ f] by blast
      have b: "(\<forall>(u, favs) \<in> set (user_favorites st). distinct favs) \<longrightarrow>
           (\<forall>(u, favs) \<in> set (purge_favorites pid (user_favorites st)). pid \<notin> set favs)"
        using purge_favorites_clean [of "user_favorites st" pid] by blast
      from r a b f Some True show ?thesis
        by (simp add: purge_favorites_keys)
    qed
  qed
qed

text \<open>
  A store of two posts and two users with favourites: the author deletes a post, and
  another user's attempt on the same post changes nothing.
\<close>

theorem delete_post_owner_only_witness:
  "snd (api_delete_post
      \<lparr>experience_posts =
         [\<lparr>post_id = py ''9f8e7d6c'', author_id = py ''ab12cd34'', likes = 0, liked_by = []\<rparr>,
          \<lparr>post_id = py ''1'', author_id = py ''system'', likes = 42, liked_by = []\<rparr>],
       user_likes = Map.empty,
       user_favorites = [(py ''55aa66bb'', [py ''1'', py ''9f8e7d6c'']),
                         (py ''ab12cd34'', [py ''9f8e7d6c''])]\<rparr>
      (Some (py ''ab12cd34'')) (py ''9f8e7d6c'')) = Inr ()
   \<and> py ''9f8e7d6c'' \<notin> post_id ` set (experience_posts (fst (api_delete_post
      \<lparr>experience_posts =
         [\<lparr>post_id = py ''9f8e7d6c'', author_id = py ''ab12cd34'', likes = 0, liked_by = []\<rparr>,
          \<lparr>post_id = py ''1'', author_id = py ''system'', likes = 42, liked_by = []\<rparr>],
       user_likes = Map.empty,
       user_favorites = [(py ''55aa66bb'', [py ''1'', py ''9f8e7d6c'']),
                         (py ''ab12cd34'', [py ''9f8e7d6c''])]\<rparr>
      (Some (py ''ab12cd34'')) (py ''9f8e7d6c''))))
   \<and> list_all (\<lambda>(u, favs). py ''9f8e7d6c'' \<notin> set favs) (user_favorites (fst (api_delete_post
      \<lparr>experience_posts =
         [\<lparr>post_id = py ''9f8e7d6c'', author_id = py ''ab12cd34'', likes = 0, liked_by = []\<rparr>,
          \<lparr>post_id = py ''1'', author_id = py ''system'', likes = 42, liked_by = []\<rparr>],
       user_likes = Map.empty,
       user_favorites = [(py ''55aa66bb'', [py ''1'', py ''9f8e7d6c'']),
                         (py ''ab12cd34'', [py ''9f8e7d6c''])]\<rparr>
      (Some (py ''ab12cd34'')) (py ''9f8e7d6c''))))
   \<and> fst (api_delete_post
      \<lparr>experience_posts =
         [\<lparr>post_id = py ''9f8e7d6c'', author_id = py ''ab12cd34'', likes = 0, liked_by = []\<rparr>,
          \<lparr>post_id = py ''1'', author_id = py ''system'', likes = 42, liked_by = []\<rparr>],
       user_likes = Map.empty,
       user_favorites = [(py ''55aa66bb'', [py ''1'', py ''9f8e7d6c'']),
                         (py ''ab12cd34'', [py ''9f8e7d6c''])]\<rparr>
      (Some (py ''55aa66bb'')) (py ''9f8e7d6c''))
     = \<lparr>experience_posts =
         [\<lparr>post_id = py ''9f8e7d6c'', author_id = py ''ab12cd34'', likes = 0, liked_by = []\<rparr>,
          \<lparr>post_id = py ''1'', author_id = py ''system'', likes = 42, liked_by = []\<rparr>],
       user_likes = Map.empty,
       user_favorites = [(py ''55aa66bb'', [py ''1'', py ''9f8e7d6c'']),
                         (py ''ab12cd34'', [py ''9f8e7d6c''])]\<rparr>"
proof -
  let ?p = "\<lparr>post_id = py ''9f8e7d6c'', author_id = py ''ab12cd34'', likes = 0, liked_by = []\<rparr>"
  let ?s = "\<lparr>experience_posts =
         [?p, \<lparr>post_id = py ''1'', author_id = py ''system'', likes = 42, liked_by = []\<rparr>],
       user_likes = Map.empty,
       user_favorites = [(py ''55aa66bb'', [py ''1'', py ''9f8e7d6c'']),
                         (py ''ab12cd34'', [py ''9f8e7d6c''])]\<rparr>"
  have f: "find (\<lambda>p. post_id p = py ''9f8e7d6c'') (experience_posts ?s) = Some ?p" by simp
  have own: "Some (py ''ab12cd34'') = Some (author_id ?p)" by simp
  have other: "Some (py ''55aa66bb'') \<noteq> Some (author_id ?p)" by (simp add: py_def)
  have d: "distinct (map post_id (experience_posts ?s))" by (simp add: py_def)
  have df: "\<forall>(u, favs) \<in> set (user_favorites ?s). distinct favs" by (simp add: py_def)
  from f own d df delete_post_owner_only [of ?s "Some (py ''ab12cd34'')" "py ''9f8e7d6c''"]
  have 1: "snd (api_delete_post ?s (Some (py ''ab12cd34'')) (py ''9f8e7d6c'')) = Inr ()"
    and 2: "py ''9f8e7d6c'' \<notin> post_id ` set (experience_posts
              (fst (api_delete_post ?s (Some (py ''ab12cd34'')) (py ''9f8e7d6c''))))"
    and 3: "\<forall>(u, favs) \<in> set (user_favorites
              (fst (api_delete_post ?s (Some (py ''ab12cd34'')) (py ''9f8e7d6c'')))).
               py ''9f8e7d6c'' \<notin> set favs"
    by blast+
  from f other delete_post_owner_only [of ?s "Some (py ''55aa66bb'')" "py ''9f8e7d6c''"]
  have 4: "fst (api_delete_post ?s (Some (py ''55aa66bb'')) (py ''9f8e7d6c'')) = ?s"
    by (metis option.inject)
  from 1 2 3 4 show ?thesis unfolding list_all_iff by blast
qed

text \<open>
  The claim as it is written, that no favourite set ever references a deleted post,
  fails: \<open>api_toggle_favorite\<close> does not look the post up, so after the author has deleted
  the only post another user can still put its id among their favourites.
\<close>

theorem favorite_after_delete_counterexample:
  "snd (api_delete_post
      \<lparr>experience_posts =
         [\<lparr>post_id = py ''9f8e7d6c'', author_id = py ''ab12cd34'', likes = 0, liked_by = []\<rparr>],
       user_likes = Map.empty, user_favorites = []\<rparr>
      (Some (py ''ab12cd34'')) (py ''9f8e7d6c'')) = Inr ()
   \<and> experience_posts (fst (api_toggle_favorite (fst (api_delete_post
      \<lparr>experience_posts =
         [\<lparr>post_id = py ''9f8e7d6c'', author_id = py ''ab12cd34'', likes = 0, liked_by = []\<rparr>],
       user_likes = Map.empty, user_favorites = []\<rparr>
      (Some (py ''ab12cd34'')) (py ''9f8e7d6c'')))
      (Some (py ''55aa66bb'')) (py ''9f8e7d6c''))) = []
   \<and> user_favorites (fst (api_toggle_favorite (fst (api_delete_post
      \<lparr>experience_posts =
         [\<lparr>post_id = py ''9f8e7d6c'', author_id = py ''ab12cd34'', likes = 0, liked_by = []\<rparr>],
       user_likes = Map.empty, user_favorites = []\<rparr>
      (Some (py ''ab12cd34'')) (py ''9f8e7d6c'')))
      (Some (py ''55aa66bb'')) (py ''9f8e7d6c''))) = [(py ''55aa66bb'', [py ''9f8e7d6c''])]"
  by (simp add: api_delete_post_def api_toggle_favorite_def purge_favorites_def favorites_of_def)

text \<open>
  C10. For a logged-in caller and an offer that exists, a call of the offer like route
  answers with the count plus one and stores it, whoever calls and however often: the
  count after a sequence of calls is the count before plus the number of calls, for any
  list of callers, so \<open>n\<close> calls by one user add \<open>n\<close>. The route takes no clock and keeps
  no record of the callers.
\<close>

theorem like_offer_unlimited:
  "find (\<lambda>x. offer_id x = oid) offers = Some ofr \<Longrightarrow>
     snd (api_like_offer offers (Some u) oid) = Inr (offer_likes ofr + 1)
   \<and> find (\<lambda>x. offer_id x = oid) (fst (api_like_offer offers (Some u) oid))
       = Some (ofr\<lparr>offer_likes := offer_likes ofr + 1\<rparr>)
   \<and> find (\<lambda>x. offer_id x = oid) (like_offer_calls offers us oid)
       = Some (ofr\<lparr>offer_likes := offer_likes ofr + int (length us)\<rparr>)
   \<and> find (\<lambda>x. offer_id x = oid) (like_offer_calls offers (replicate n u) oid)
       = Some (ofr\<lparr>offer_likes := offer_likes ofr + int n\<rparr>)"
  using like_offer_loop_found [of oid offers ofr] like_offer_calls_found [of oid offers ofr us]
    like_offer_calls_found [of oid offers ofr "replicate n u"]
  by (simp add: api_like_offer_def)

text \<open>The first seeded offer, liked a thousand times by one user.\<close>

theorem like_offer_unlimited_witness:
  "find (\<lambda>x. offer_id x = py ''offer1'')
      [\<lparr>offer_id = py ''offer1'', offer_likes = 45\<rparr>, \<lparr>offer_id = py ''offer2'', offer_likes = 67\<rparr>]
     = Some \<lparr>offer_id = py ''offer1'', offer_likes = 45\<rparr>
   \<and> snd (api_like_offer
        [\<lparr>offer_id = py ''offer1'', offer_likes = 45\<rparr>, \<lparr>offer_id = py ''offer2'', offer_likes = 67\<rparr>]
        (Some (py ''ab12cd34'')) (py ''offer1'')) = Inr 46
   \<and> find (\<lambda>x. offer_id x = py ''offer1'')
        (like_offer_calls
          [\<lparr>offer_id = py ''offer1'', offer_likes = 45\<rparr>, \<lparr>offer_id = py ''offer2'', offer_likes = 67\<rparr>]
          (replicate 1000 (py ''ab12cd34'')) (py ''offer1''))
     = Some \<lparr>offer_id = py ''offer1'', offer_likes = 1045\<rparr>"
proof -
  have h: "find (\<lambda>x. offer_id x = py ''offer1'')
      [\<lparr>offer_id = py ''offer1'', offer_likes = 45\<rparr>, \<lparr>offer_id = py ''offer2'', offer_likes = 67\<rparr>]
     = Some \<lparr>offer_id = py ''offer1'', offer_likes = 45\<rparr>"
    by simp
  from h like_offer_unlimited [OF h, of "py ''ab12cd34''" "[]" 1000] show ?thesis by simp
qed

section \<open>Claims on company votes and badges\<close>

text \<open>
  C5. After a vote of a user for a company has succeeded, a second call of the vote
  route by the same user for the same company on the day of the recorded vote is refused
  ("You already voted for this company today") and leaves the vote counts as they are. A
  call by the same user for a different company, one that exists and that the user has
  not voted for on that day, succeeds with that company's count plus one, however many
  companies the user has voted for that day: the check looks at the one company only.
\<close>

theorem company_vote_once_a_day:
  "(snd (api_vote_company vs (Some u) c t1 t2) = Inr n \<and> dt_day t3 = dt_day t2 \<longrightarrow>
        snd (api_vote_company (fst (api_vote_company vs (Some u) c t1 t2)) (Some u) c t3 t4)
          = Inl (RateLimited AlreadyVotedToday)
      \<and> dream_companies (fst (api_vote_company (fst (api_vote_company vs (Some u) c t1 t2))
            (Some u) c t3 t4))
          = dream_companies (fst (api_vote_company vs (Some u) c t1 t2)))
   \<and> (snd (api_vote_company vs (Some u) c t1 t2) = Inr n \<and> c' \<noteq> c
        \<and> find (\<lambda>k. company_id k = c') (dream_companies vs) = Some k
        \<and> (\<forall>ts. votes_on (company_votes vs) c' u = Some ts \<longrightarrow> dt_day ts < dt_day t3) \<longrightarrow>
        snd (api_vote_company (fst (api_vote_company vs (Some u) c t1 t2)) (Some u) c' t3 t4)
          = Inr (votes k + 1))"
proof -
  let ?vs1 = "fst (api_vote_company vs (Some u) c t1 t2)"
  have first: "snd (api_vote_company vs (Some u) c t1 t2) = Inr n \<Longrightarrow>
      votes_on (company_votes ?vs1) c u = Some t2
       \<and> (\<forall>c'. c' \<noteq> c \<longrightarrow>
            votes_on (company_votes ?vs1) c' = votes_on (company_votes vs) c'
          \<and> find (\<lambda>k. company_id k = c') (dream_companies ?vs1)
              = find (\<lambda>k. company_id k = c') (dream_companies vs))"
  proof -
    assume "snd (api_vote_company vs (Some u) c t1 t2) = Inr n"
    from vote_succeeded [OF this] obtain k0 where
      "find (\<lambda>k. company_id k = c) (dream_companies vs) = Some k0"
      "\<forall>ts. votes_on (company_votes vs) c u = Some ts \<longrightarrow> dt_day ts < dt_day t1"
      by blast
    from vote_accepted [OF this, of t2] show ?thesis by blast
  qed
  have a: "snd (api_vote_company vs (Some u) c t1 t2) = Inr n \<and> dt_day t3 = dt_day t2 \<longrightarrow>
        snd (api_vote_company ?vs1 (Some u) c t3 t4) = Inl (RateLimited AlreadyVotedToday)
      \<and> dream_companies (fst (api_vote_company ?vs1 (Some u) c t3 t4)) = dream_companies ?vs1"
  proof
    assume h: "snd (api_vote_company vs (Some u) c t1 t2) = Inr n \<and> dt_day t3 = dt_day t2"
    with first have "votes_on (company_votes ?vs1) c u = Some t2" by blast
    moreover from h have "dt_day t3 \<le> dt_day t2" by simp
    ultimately show "snd (api_vote_company ?vs1 (Some u) c t3 t4) = Inl (RateLimited AlreadyVotedToday)
      \<and> dream_companies (fst (api_vote_company ?vs1 (Some u) c t3 t4)) = dream_companies ?vs1"
      using vote_refused [of ?vs1 c u t2 t3 t4] by blast
  qed
  have b: "snd (api_vote_company vs (Some u) c t1 t2) = Inr n \<and> c' \<noteq> c
        \<and> find (\<lambda>k. company_id k = c') (dream_companies vs) = Some k
        \<and> (\<forall>ts. votes_on (company_votes vs) c' u = Some ts \<longrightarrow> dt_day ts < dt_day t3) \<longrightarrow>
        snd (api_vote_company ?vs1 (Some u) c' t3 t4) = Inr (votes k + 1)"
  proof
    assume h: "snd (api_vote_company vs (Some u) c t1 t2) = Inr n \<and> c' \<noteq> c
        \<and> find (\<lambda>k. company_id k = c') (dream_companies vs) = Some k
        \<and> (\<forall>ts. votes_on (company_votes vs) c' u = Some ts \<longrightarrow> dt_day ts < dt_day t3)"
    with first have
      "votes_on (company_votes ?vs1) c' = votes_on (company_votes vs) c'"
      "find (\<lambda>k. company_id k = c') (dream_companies ?vs1) = Some k"
      by auto
    with h have "find (\<lambda>k. company_id k = c') (dream_companies ?vs1) = Some k"
      "\<forall>ts. votes_on (company_votes ?vs1) c' u = Some ts \<longrightarrow> dt_day ts < dt_day t3"
      by auto
    from vote_accepted [OF this, of t4]
    show "snd (api_vote_company ?vs1 (Some u) c' t3 t4) = Inr (votes k + 1)" by blast
  qed
  from a b show ?thesis by blast
qed
text \<open>
  The first two seeded companies: a user votes for the first, is refused a second vote
  for it the same day, and votes for the second.
\<close>

theorem company_vote_once_a_day_witness:
  "snd (api_vote_company
      \<lparr>dream_companies = [\<lparr>company_id = py ''google'', votes = 156\<rparr>,
                          \<lparr>company_id = py ''goldman'', votes = 134\<rparr>],
       company_votes = Map.empty, user_achievements = Map.empty\<rparr>
      (Some (py ''ab12cd34'')) (py ''google'') (DateTime 100 5) (DateTime 100 6)) = Inr 157
   \<and> snd (api_vote_company (fst (api_vote_company
      \<lparr>dream_companies = [\<lparr>company_id = py ''google'', votes = 156\<rparr>,
                          \<lparr>company_id = py ''goldman'', votes = 134\<rparr>],
       company_votes = Map.empty, user_achievements = Map.empty\<rparr>
      (Some (py ''ab12cd34'')) (py ''google'') (DateTime 100 5) (DateTime 100 6)))
      (Some (py ''ab12cd34'')) (py ''google'') (DateTime 100 7) (DateTime 100 8))
       = Inl (RateLimited AlreadyVotedToday)
   \<and> snd (api_vote_company (fst (api_vote_company
      \<lparr>dream_companies = [\<lparr>company_id = py ''google'', votes = 156\<rparr>,
                          \<lparr>company_id = py ''goldman'', votes = 134\<rparr>],
       company_votes = Map.empty, user_achievements = Map.empty\<rparr>
      (Some (py ''ab12cd34'')) (py ''google'') (DateTime 100 5) (DateTime 100 6)))
      (Some (py ''ab12cd34'')) (py ''goldman'') (DateTime 100 7) (DateTime 100 8))
       = Inr 135"
proof -
  let ?g = "\<lparr>company_id = py ''goldman'', votes = 134\<rparr>"
  let ?vs = "\<lparr>dream_companies = [\<lparr>company_id = py ''google'', votes = 156\<rparr>, ?g],
       company_votes = Map.empty, user_achievements = Map.empty\<rparr>"
  have a: "snd (api_vote_company ?vs (Some (py ''ab12cd34'')) (py ''google'')
             (DateTime 100 5) (DateTime 100 6)) = Inr 157"
    by (simp add: api_vote_company_def can_vote_for_company_def votes_on_def)
  have b: "dt_day (DateTime 100 7) = dt_day (DateTime 100 6)" by simp
  have c: "py ''goldman'' \<noteq> py ''google''" by (simp add: py_def)
  have d: "find (\<lambda>k. company_id k = py ''goldman'') (dream_companies ?vs) = Some ?g"
    by (simp add: py_def)
  have e: "\<forall>ts. votes_on (company_votes ?vs) (py ''goldman'') (py ''ab12cd34'') = Some ts
             \<longrightarrow> dt_day ts < dt_day (DateTime 100 7)"
    by (simp add: votes_on_def)
  have f: "votes ?g + 1 = 135" by simp
  from a b c d e
    company_vote_once_a_day [of ?vs "py ''ab12cd34''" "py ''google''" "DateTime 100 5"
      "DateTime 100 6" 157 "DateTime 100 7" "DateTime 100 8" "py ''goldman''" ?g]
  have "snd (api_vote_company (fst (api_vote_company ?vs (Some (py ''ab12cd34'')) (py ''google'')
             (DateTime 100 5) (DateTime 100 6)))
          (Some (py ''ab12cd34'')) (py ''google'') (DateTime 100 7) (DateTime 100 8))
       = Inl (RateLimited AlreadyVotedToday)"
   and "snd (api_vote_company (fst (api_vote_company ?vs (Some (py ''ab12cd34'')) (py ''google'')
             (DateTime 100 5) (DateTime 100 6)))
          (Some (py ''ab12cd34'')) (py ''goldman'') (DateTime 100 7) (DateTime 100 8))
       = Inr (votes ?g + 1)"
    by blast+
  with a f show ?thesis by simp
qed

text \<open>
  C3. For a user with no achievement record, 10 calls of \<open>award_user_points\<close> with
  action type "vote" and the 5 points the vote route passes leave exactly the badges
  \<open>first_vote\<close> and \<open>voter_10\<close>, and not \<open>voter_50\<close>; after the 50th such call the badges
  include \<open>first_vote\<close>, \<open>voter_10\<close> and \<open>voter_50\<close>. With any number of points passed in
  each call the badges after the 10th call include \<open>first_vote\<close> and \<open>voter_10\<close> and not
  \<open>voter_50\<close> (and are exactly those two below 44 points a call), and after the 50th they
  include all three. After any number of such calls no badge is held twice, so each
  was awarded once, and the points are the points passed in plus the fixed bonus of each
  badge held.
\<close>

theorem vote_badges_awarded:
  assumes "ua u = None"
  shows "(\<exists>a. award_votes ua u 5 10 u = Some a
            \<and> badges a = [''first_vote'', ''voter_10''] \<and> ''voter_50'' \<notin> set (badges a))
       \<and> (\<exists>a. award_votes ua u 5 50 u = Some a
            \<and> ''first_vote'' \<in> set (badges a) \<and> ''voter_10'' \<in> set (badges a)
            \<and> ''voter_50'' \<in> set (badges a))
       \<and> (\<exists>a. award_votes ua u p 10 u = Some a
            \<and> ''first_vote'' \<in> set (badges a) \<and> ''voter_10'' \<in> set (badges a)
            \<and> ''voter_50'' \<notin> set (badges a)
            \<and> (p < 44 \<longrightarrow> badges a = [''first_vote'', ''voter_10'']))
       \<and> (\<exists>a. award_votes ua u p 50 u = Some a
            \<and> ''first_vote'' \<in> set (badges a) \<and> ''voter_10'' \<in> set (badges a)
            \<and> ''voter_50'' \<in> set (badges a))
       \<and> (\<exists>a. award_votes ua u p (Suc n) u = Some a
            \<and> distinct (badges a) \<and> votes_cast a = int (Suc n)
            \<and> points a = int (Suc n) * p + sum_list (map badge_points (badges a)))"
proof -
  note g5 = vote_badges_general [of ua u 5 n, OF assms]
  note gp = vote_badges_general [of ua u p n, OF assms]
  from g5 have five: "\<exists>a. award_votes ua u 5 10 u = Some a
            \<and> badges a = [''first_vote'', ''voter_10''] \<and> ''voter_50'' \<notin> set (badges a)"
    by auto
  from g5 have fifty: "\<exists>a. award_votes ua u 5 50 u = Some a
            \<and> ''first_vote'' \<in> set (badges a) \<and> ''voter_10'' \<in> set (badges a)
            \<and> ''voter_50'' \<in> set (badges a)"
    by blast
  from five fifty gp show ?thesis by blast
qed

text \<open>The awards of the vote route, 5 points a call, for a new user.\<close>

theorem vote_badges_awarded_witness:
  "(\<exists>a. award_votes Map.empty (py ''ab12cd34'') 5 10 (py ''ab12cd34'') = Some a
        \<and> badges a = [''first_vote'', ''voter_10''] \<and> ''voter_50'' \<notin> set (badges a))
   \<and> (\<exists>a. award_votes Map.empty (py ''ab12cd34'') 5 50 (py ''ab12cd34'') = Some a
        \<and> ''first_vote'' \<in> set (badges a) \<and> ''voter_10'' \<in> set (badges a)
        \<and> ''voter_50'' \<in> set (badges a))
   \<and> (\<exists>a. award_votes Map.empty (py ''ab12cd34'') 5 10 (py ''ab12cd34'') = Some a
        \<and> distinct (badges a) \<and> votes_cast a = 10
        \<and> points a = 10 * 5 + sum_list (map badge_points (badges a)))"
proof -
  have h: "(Map.empty :: pystr \<rightharpoonup> achievement) (py ''ab12cd34'') = None" by simp
  have n: "Suc 9 = 10" by simp
  note t = vote_badges_awarded [of Map.empty "py ''ab12cd34''" 5 9, OF h, unfolded n]
  from t have ten: "\<exists>a. award_votes Map.empty (py ''ab12cd34'') 5 10 (py ''ab12cd34'') = Some a
        \<and> badges a = [''first_vote'', ''voter_10''] \<and> ''voter_50'' \<notin> set (badges a)"
    by (rule conjunct1)
  from t have fifty: "\<exists>a. award_votes Map.empty (py ''ab12cd34'') 5 50 (py ''ab12cd34'') = Some a
        \<and> ''first_vote'' \<in> set (badges a) \<and> ''voter_10'' \<in> set (badges a)
        \<and> ''voter_50'' \<in> set (badges a)"
    by (rule conjunct1 [OF conjunct2])
  from t have "\<exists>a. award_votes Map.empty (py ''ab12cd34'') 5 10 (py ''ab12cd34'') = Some a
        \<and> distinct (badges a) \<and> votes_cast a = int 10
        \<and> points a = int 10 * 5 + sum_list (map badge_points (badges a))"
    by (rule conjunct2 [OF conjunct2 [OF conjunct2 [OF conjunct2]]])
  then obtain a where a: "award_votes Map.empty (py ''ab12cd34'') 5 10 (py ''ab12cd34'') = Some a"
    "distinct (badges a)" "votes_cast a = int 10"
    "points a = int 10 * 5 + sum_list (map badge_points (badges a))"
    by blast
  have sum: "\<exists>a. award_votes Map.empty (py ''ab12cd34'') 5 10 (py ''ab12cd34'') = Some a
        \<and> distinct (badges a) \<and> votes_cast a = 10
        \<and> points a = 10 * 5 + sum_list (map badge_points (badges a))"
  proof (intro exI [of _ a] conjI)
    show "award_votes Map.empty (py ''ab12cd34'') 5 10 (py ''ab12cd34'') = Some a" by (rule a(1))
    show "distinct (badges a)" by (rule a(2))
    show "votes_cast a = 10" using a(3) by simp
    show "points a = 10 * 5 + sum_list (map badge_points (badges a))" using a(4) by simp
  qed
  from ten fifty sum show ?thesis by (intro conjI)
qed

end
